theory Spec2Isabelle
  imports Main
begin

section \<open>Errors, logging and contexts (handler.go)\<close>

text \<open>
  A Go \<^verbatim>\<open>error\<close> value. The three sentinels of the package are constructors of
  their own; \<open>WrapError msg e\<close> is \<^verbatim>\<open>fmt.Errorf(msg + ": %w", e)\<close>, any other error is a
  plain message. A nil error is \<open>None\<close> of \<open>error option\<close>.
\<close>

datatype error =
    ErrPass
  | ErrStateNotFound
  | ErrDataKeyNotFound
  | ErrorString string
  | WrapError string error

text \<open>\<^verbatim>\<open>errors.Is\<close>: the error itself or anything it wraps.\<close>

fun errors_Is :: "error \<Rightarrow> error \<Rightarrow> bool" where
  "errors_Is (WrapError m e) target = (WrapError m e = target \<or> errors_Is e target)"
| "errors_Is e target = (e = target)"

definition Is :: "error option \<Rightarrow> error \<Rightarrow> bool" where
  "Is err target = (case err of None \<Rightarrow> False | Some e \<Rightarrow> errors_Is e target)"

text \<open>A panic of the Go runtime ends the call; it is not an error value.\<close>

datatype 'a outcome = Returned 'a | Panicked string

text \<open>
  \<^verbatim>\<open>slog\<close>: a logger is the list of attributes given to it by \<^verbatim>\<open>With\<close>; what it
  writes is a record of level, message and attributes.
\<close>

datatype attr_value = StringValue string | ErrorValue error

type_synonym Logger = "(string \<times> attr_value) list"

datatype level = LevelInfo | LevelWarn | LevelError

type_synonym log_entry = "level \<times> string \<times> (string \<times> attr_value) list"

definition With :: "Logger \<Rightarrow> string \<Rightarrow> attr_value \<Rightarrow> Logger" where
  "With l k v = l @ [(k, v)]"

type_synonym bytes = string

text \<open>
  Everything a call can change: the contents of \<^verbatim>\<open>memoryStateStore.data\<close> (chat key to
  stored blob), the lines written by the loggers, and the world outside the package
  (messages sent, application data), on which the callbacks of the application act.
\<close>

record 'x world =
  stacks :: "string \<rightharpoonup> bytes"
  logs :: "log_entry list"
  ext :: 'x

definition write_log :: "Logger \<Rightarrow> level \<Rightarrow> string \<Rightarrow> 'x world \<Rightarrow> 'x world" where
  "write_log l lv msg w = w\<lparr>logs := logs w @ [(lv, msg, l)]\<rparr>"

text \<open>
  \<^verbatim>\<open>nativeContext\<close>, with the fields the core reads. \<^verbatim>\<open>telego.ChatID\<close> belongs to the
  transport library; the core only prints it, so it is kept as its \<^verbatim>\<open>String()\<close> form.
\<close>

type_synonym ChatID = string

record Context =
  ChatKey :: string
  ChatID :: ChatID
  Logger :: Logger

definition ContextWithLogger :: "Context \<Rightarrow> Logger \<Rightarrow> Context" where
  "ContextWithLogger ctx l = ctx\<lparr>Logger := l\<rparr>"

text \<open>
  The \<^verbatim>\<open>Handler\<close> interface. \<^verbatim>\<open>Handle\<close> is application code: any function of the
  context and the world, returning its error and the world it leaves.
\<close>

record 'x Handler =
  Name :: string
  Handle :: "Context \<Rightarrow> 'x world \<Rightarrow> error option \<times> 'x world"

section \<open>The dispatcher (nabot.go)\<close>

text \<open>
  \<^verbatim>\<open>telego.Update\<close> is a type of the transport library: the type variable \<open>'u\<close>.
  \<^verbatim>\<open>extractChatInfo\<close> returns chat key, chat id and \<^verbatim>\<open>ok\<close>.
\<close>

record ('u, 'x) App =
  handlers :: "'x Handler list"
  logger :: Logger
  extractChatInfo :: "'u \<Rightarrow> string \<times> ChatID \<times> bool"

definition App_Handle :: "('u, 'x) App \<Rightarrow> 'x Handler \<Rightarrow> ('u, 'x) App" where
  "App_Handle a handler = a\<lparr>handlers := handlers a @ [handler]\<rparr>"

definition newContext :: "('u, 'x) App \<Rightarrow> 'u \<Rightarrow> Context option" where
  "newContext a update =
     (case extractChatInfo a update of
        (chatKey, chatId, ok) \<Rightarrow>
          if \<not> ok then None
          else Some \<lparr>ChatKey = chatKey, ChatID = chatId,
                      Logger = With (logger a) ''chat'' (StringValue chatId)\<rparr>)"

text \<open>
  The loop of \<^verbatim>\<open>processUpdate\<close>. The accumulator holds the variables \<^verbatim>\<open>err\<close> and
  \<^verbatim>\<open>handler\<close> and the world; \<^verbatim>\<open>continue\<close> is the recursive call, \<^verbatim>\<open>break\<close> returns.
\<close>

fun processUpdate_loop ::
  "('u, 'x) App \<Rightarrow> Context \<Rightarrow> 'x Handler list \<Rightarrow>
   error option \<times> 'x Handler option \<times> 'x world \<Rightarrow>
   error option \<times> 'x Handler option \<times> 'x world" where
  "processUpdate_loop a ctx [] acc = acc"
| "processUpdate_loop a ctx (h # hs) (err, handler, w) =
     (case Handle h (ContextWithLogger ctx
                       (With (logger a) ''handler'' (StringValue (Name h)))) w of
        (err', w') \<Rightarrow>
          if Is err' ErrPass then processUpdate_loop a ctx hs (err', Some h, w')
          else (err', Some h, w'))"

text \<open>
  \<^verbatim>\<open>processUpdate\<close> returns nothing: what it leaves is the world, with the lines it
  logged. \<^verbatim>\<open>GetTypeOfUpdate\<close> reads the transport's update type and is a parameter.
\<close>

definition processUpdate ::
  "('u \<Rightarrow> string) \<Rightarrow> ('u, 'x) App \<Rightarrow> 'u \<Rightarrow> 'x world \<Rightarrow> 'x world" where
  "processUpdate GetTypeOfUpdate a update w =
     (case newContext a update of
        None \<Rightarrow>
          write_log (With (logger a) ''update_type'' (StringValue (GetTypeOfUpdate update)))
            LevelWarn ''nabot: could not determine context; ignoring update'' w
      | Some ctx \<Rightarrow>
          (case processUpdate_loop a ctx (handlers a) (None, None, w) of
             (err, handler, w') \<Rightarrow>
               (case err of
                  None \<Rightarrow> w'
                | Some e \<Rightarrow>
                    if errors_Is e ErrPass
                    then write_log (logger a) LevelInfo
                           ''nabot: update was not handled by any handler'' w'
                    else
                      let handlerName = (case handler of None \<Rightarrow> ''<nil>'' | Some h \<Rightarrow> Name h)
                      in write_log
                           (With (With (logger a) ''error'' (ErrorValue e))
                              ''handler'' (StringValue handlerName))
                           LevelError ''nabot: failed to handle update'' w')))"

section \<open>States and transitions (state.go)\<close>

text \<open>
  \<^verbatim>\<open>encoding/json\<close> is the standard library's: \<^verbatim>\<open>json.Marshal\<close> of a \<^verbatim>\<open>[]string\<close>
  (the empty list is the nil slice, the only empty one \<^verbatim>\<open>setStack\<close> builds) and
  \<^verbatim>\<open>json.Unmarshal\<close> into a \<^verbatim>\<open>[]string\<close> are parameters of the model.
\<close>

record json =
  Marshal :: "string list \<Rightarrow> error + bytes"
  Unmarshal :: "bytes \<Rightarrow> error + string list"

text \<open>
  \<^verbatim>\<open>BaseState\<close>, the package's implementation of \<^verbatim>\<open>State\<close> and \<^verbatim>\<open>ChainableState\<close>,
  and the two implementations of \<^verbatim>\<open>Transition\<close>. A nil \<^verbatim>\<open>Renderer\<close> or \<^verbatim>\<open>ToNext\<close> is
  \<open>None\<close>. \<open>Back\<close> is the value \<^verbatim>\<open>back{}\<close> that \<^verbatim>\<open>StateHandler.Back()\<close> returns. The
  \<^verbatim>\<open>stateHandler\<close> pointer of a transition is the handler passed to \<open>Transition_Go\<close>.
\<close>

datatype 'x State =
  BaseState (ID: string)
            (Renderer: "(Context \<Rightarrow> 'x world \<Rightarrow> error option \<times> 'x world) option")
            (Handlers: "'x Handler list")
            (ToNext: "'x Transition option")
and 'x Transition = toState "'x State" | Back

definition BaseState_Name :: "'x State \<Rightarrow> string" where
  "BaseState_Name b = ID b"

definition BaseState_Render ::
  "'x State \<Rightarrow> Context \<Rightarrow> 'x world \<Rightarrow> error option \<times> 'x world" where
  "BaseState_Render b ctx w = (case Renderer b of None \<Rightarrow> (None, w) | Some r \<Rightarrow> r ctx w)"

fun BaseState_Handle_loop ::
  "Context \<Rightarrow> 'x Handler list \<Rightarrow> error option \<times> 'x world \<Rightarrow> error option \<times> 'x world" where
  "BaseState_Handle_loop ctx [] acc = acc"
| "BaseState_Handle_loop ctx (h # hs) (err, w) =
     (case Handle h ctx w of
        (err', w') \<Rightarrow>
          if Is err' ErrPass then BaseState_Handle_loop ctx hs (err', w') else (err', w'))"

definition BaseState_Handle ::
  "'x State \<Rightarrow> Context \<Rightarrow> 'x world \<Rightarrow> error option \<times> 'x world" where
  "BaseState_Handle b ctx w = BaseState_Handle_loop ctx (Handlers b) (None, w)"

definition BaseState_Next :: "'x State \<Rightarrow> 'x Transition option" where
  "BaseState_Next b = ToNext b"

text \<open>The assignment \<^verbatim>\<open>*state.Next() = t\<close>.\<close>

definition set_Next :: "'x State \<Rightarrow> 'x Transition \<Rightarrow> 'x State" where
  "set_Next b t = BaseState (ID b) (Renderer b) (Handlers b) (Some t)"

text \<open>\<^verbatim>\<open>memoryStateStore\<close>: the map is the \<open>stacks\<close> field of the world.\<close>

definition memoryStateStore_GetStack ::
  "(string \<rightharpoonup> bytes) \<Rightarrow> string \<Rightarrow> bytes \<times> error option" where
  "memoryStateStore_GetStack m chatKey =
     (case m chatKey of None \<Rightarrow> ([], Some ErrStateNotFound) | Some val \<Rightarrow> (val, None))"

definition memoryStateStore_SetStack ::
  "(string \<rightharpoonup> bytes) \<Rightarrow> string \<Rightarrow> bytes \<Rightarrow> (string \<rightharpoonup> bytes) \<times> error option" where
  "memoryStateStore_SetStack m chatKey stack = (m(chatKey \<mapsto> stack), None)"

text \<open>
  \<^verbatim>\<open>StateHandler\<close>: the logger of its app and the registry; its storage is the
  in-memory store of \<^verbatim>\<open>NewStateHandler\<close>.
\<close>

record 'x StateHandler =
  app_logger :: Logger
  states :: "string \<rightharpoonup> 'x State"

definition NewStateHandler :: "('u, 'x) App \<Rightarrow> 'x StateHandler" where
  "NewStateHandler a = \<lparr>app_logger = logger a, states = Map.empty\<rparr>"

definition StateHandler_Name :: "'x StateHandler \<Rightarrow> string" where
  "StateHandler_Name s = ''state_handler''"

text \<open>
  The double quote. The verb \<^verbatim>\<open>%q\<close> puts the name between two of them (its escapes of
  special characters are left out).
\<close>

definition dq :: char where
  "dq = CHR 0x22"

definition RegisterState ::
  "'x StateHandler \<Rightarrow> 'x State option \<Rightarrow> ('x Transition \<times> 'x StateHandler) outcome" where
  "RegisterState s state =
     (case state of
        None \<Rightarrow> Panicked ''nabot: cannot register nil state''
      | Some st \<Rightarrow>
          if states s (BaseState_Name st) \<noteq> None
          then Panicked (''nabot: a state with name '' @ [dq] @ BaseState_Name st @ [dq] @
                         '' already exists'')
          else Returned (toState st, s\<lparr>states := (states s)(BaseState_Name st \<mapsto> st)\<rparr>))"

text \<open>
  The loop of \<^verbatim>\<open>RegisterAndChainStates\<close> runs from the last state to the first: the
  states behind \<open>x\<close> are done before \<open>x\<close>. It returns the variable \<^verbatim>\<open>t\<close>, the handler
  and the states as the assignments through \<^verbatim>\<open>Next()\<close> left them.
\<close>

fun RegisterAndChainStates_loop ::
  "'x StateHandler \<Rightarrow> 'x State option list \<Rightarrow>
   ('x Transition option \<times> 'x StateHandler \<times> 'x State option list) outcome" where
  "RegisterAndChainStates_loop s [] = Returned (None, s, [])"
| "RegisterAndChainStates_loop s (x # xs) =
     (case RegisterAndChainStates_loop s xs of
        Panicked msg \<Rightarrow> Panicked msg
      | Returned (t, s1, xs') \<Rightarrow>
          (case (case t of
                   None \<Rightarrow> Returned x
                 | Some t' \<Rightarrow>
                     (case x of
                        None \<Rightarrow> Panicked ''invalid memory address or nil pointer dereference''
                      | Some st \<Rightarrow> Returned (Some (set_Next st t')))) of
             Panicked msg \<Rightarrow> Panicked msg
           | Returned x' \<Rightarrow>
               (case RegisterState s1 x' of
                  Panicked msg \<Rightarrow> Panicked msg
                | Returned (t1, s2) \<Rightarrow> Returned (Some t1, s2, x' # xs'))))"

definition RegisterAndChainStates ::
  "'x StateHandler \<Rightarrow> 'x State option list \<Rightarrow>
   ('x Transition option \<times> 'x StateHandler \<times> 'x State option list) outcome" where
  "RegisterAndChainStates s sts =
     (if length sts = 0 then Panicked ''nabot: at least one chainable state required''
      else RegisterAndChainStates_loop s sts)"

text \<open>The loop of \<^verbatim>\<open>getStack\<close>: the registered states of the stored names, in order.\<close>

fun getStack_loop :: "(string \<rightharpoonup> 'x State) \<Rightarrow> string list \<Rightarrow> 'x State list" where
  "getStack_loop reg [] = []"
| "getStack_loop reg (name # names) =
     (case reg name of
        Some state \<Rightarrow> state # getStack_loop reg names
      | None \<Rightarrow> getStack_loop reg names)"

text \<open>
  \<^verbatim>\<open>getStack\<close> returns the slice (nil is \<open>None\<close>), the error, and the world, which
  differs from the one it was given by the line logged when parsing fails.
\<close>

definition getStack ::
  "json \<Rightarrow> 'x StateHandler \<Rightarrow> string \<Rightarrow> 'x world \<Rightarrow>
   ('x State list option \<times> error option) \<times> 'x world" where
  "getStack js s key w =
     (case memoryStateStore_GetStack (stacks w) key of
        (st, err) \<Rightarrow>
          if Is err ErrStateNotFound then ((None, None), w)
          else
            (case err of
               Some e \<Rightarrow> ((None, Some (WrapError ''failed to get stack'' e)), w)
             | None \<Rightarrow>
                 (case Unmarshal js st of
                    Inl e \<Rightarrow>
                      ((None, None),
                       write_log (With (app_logger s) ''error'' (ErrorValue e)) LevelError
                         ''failed to unmarshal stored stack. skipping state handler'' w)
                  | Inr names \<Rightarrow>
                      let result = getStack_loop (states s) names
                      in if length result = 0 then ((None, None), w)
                         else ((Some result, None), w))))"

text \<open>The loop of \<^verbatim>\<open>setStack\<close>: the names of the states that are registered.\<close>

fun setStack_loop :: "(string \<rightharpoonup> 'x State) \<Rightarrow> 'x State list \<Rightarrow> string list" where
  "setStack_loop reg [] = []"
| "setStack_loop reg (st # stack) =
     (if reg (BaseState_Name st) \<noteq> None
      then BaseState_Name st # setStack_loop reg stack
      else setStack_loop reg stack)"

definition setStack ::
  "json \<Rightarrow> 'x StateHandler \<Rightarrow> string \<Rightarrow> 'x State list \<Rightarrow> 'x world \<Rightarrow>
   error option \<times> 'x world" where
  "setStack js s key stack w =
     (case Marshal js (setStack_loop (states s) stack) of
        Inl e \<Rightarrow> (Some (WrapError ''failed to marshal stack'' e), w)
      | Inr st \<Rightarrow>
          (case memoryStateStore_SetStack (stacks w) key st of
             (m, err) \<Rightarrow>
               (case err of
                  Some e \<Rightarrow> (Some (WrapError ''failed to set stack'' e), w\<lparr>stacks := m\<rparr>)
                | None \<Rightarrow> (None, w\<lparr>stacks := m\<rparr>))))"

text \<open>A Go slice read as a list: the nil slice has no elements.\<close>

definition elems :: "'a list option \<Rightarrow> 'a list" where
  "elems stack = (case stack of None \<Rightarrow> [] | Some xs \<Rightarrow> xs)"

text \<open>\<^verbatim>\<open>slices.IndexFunc\<close>: the first index whose element satisfies \<open>f\<close>, or \<open>-1\<close>.\<close>

fun IndexFunc :: "'a list \<Rightarrow> ('a \<Rightarrow> bool) \<Rightarrow> int" where
  "IndexFunc [] f = - 1"
| "IndexFunc (x # xs) f =
     (if f x then 0 else (let i = IndexFunc xs f in if i < 0 then - 1 else i + 1))"

text \<open>
  \<^verbatim>\<open>StateHandler.Handle\<close>. The index expression \<^verbatim>\<open>stack[len(stack)-1]\<close> panics on a
  slice without elements.
\<close>

definition StateHandler_Handle ::
  "json \<Rightarrow> 'x StateHandler \<Rightarrow> Context \<Rightarrow> 'x world \<Rightarrow> (error option \<times> 'x world) outcome" where
  "StateHandler_Handle js s ctx w =
     (case getStack js s (ChatKey ctx) w of
        ((stack, err), w1) \<Rightarrow>
          (case err of
             Some e \<Rightarrow> Returned (Some e, w1)
           | None \<Rightarrow>
               (case stack of
                  None \<Rightarrow> Returned (Some ErrPass, w1)
                | Some st \<Rightarrow>
                    if length st = 0 then Panicked ''index out of range [-1]''
                    else
                      let top = st ! (length st - 1);
                          ctx' = ContextWithLogger ctx
                                   (With (Logger ctx) ''state'' (StringValue (BaseState_Name top)))
                      in Returned (BaseState_Handle top ctx' w1))))"

definition toState_Go ::
  "json \<Rightarrow> 'x StateHandler \<Rightarrow> 'x State \<Rightarrow> Context \<Rightarrow> 'x world \<Rightarrow> error option \<times> 'x world" where
  "toState_Go js s state ctx w =
     (case getStack js s (ChatKey ctx) w of
        ((stack, err), w1) \<Rightarrow>
          (case err of
             Some e \<Rightarrow> (Some e, w1)
           | None \<Rightarrow>
               let idx = IndexFunc (elems stack)
                           (\<lambda>st. BaseState_Name st = BaseState_Name state);
                   stack' = (if idx \<ge> 0 then take (nat (idx + 1)) (elems stack)
                             else elems stack @ [state])
               in (case setStack js s (ChatKey ctx) stack' w1 of
                     (err', w2) \<Rightarrow>
                       (case err' of
                          Some e \<Rightarrow> (Some e, w2)
                        | None \<Rightarrow> BaseState_Render state ctx w2))))"

definition back_Go ::
  "json \<Rightarrow> 'x StateHandler \<Rightarrow> Context \<Rightarrow> 'x world \<Rightarrow> error option \<times> 'x world" where
  "back_Go js s ctx w =
     (case getStack js s (ChatKey ctx) w of
        ((stack, err), w1) \<Rightarrow>
          (case err of
             Some e \<Rightarrow> (Some e, w1)
           | None \<Rightarrow>
               if length (elems stack) = 0 then (None, w1)
               else
                 let stack' = take (length (elems stack) - 1) (elems stack)
                 in (case setStack js s (ChatKey ctx) stack' w1 of
                       (err', w2) \<Rightarrow>
                         (case err' of
                            Some e \<Rightarrow> (Some e, w2)
                          | None \<Rightarrow>
                              if length stack' > 0
                              then BaseState_Render (stack' ! (length stack' - 1)) ctx w2
                              else (None, w2)))))"

definition Transition_Go ::
  "json \<Rightarrow> 'x StateHandler \<Rightarrow> 'x Transition \<Rightarrow> Context \<Rightarrow> 'x world \<Rightarrow>
   error option \<times> 'x world" where
  "Transition_Go js s t ctx w =
     (case t of toState state \<Rightarrow> toState_Go js s state ctx w | Back \<Rightarrow> back_Go js s ctx w)"

section \<open>Data storage\<close>

text \<open>
  A value of type \<^verbatim>\<open>any\<close>: the nil interface, or a dynamic type with a value of it.
  Types are kept as \<^verbatim>\<open>reflect\<close> prints them. \<^verbatim>\<open>reflect.Type.AssignableTo\<close> is the
  standard library's and a parameter of \<open>GetData\<close>.
\<close>

type_synonym go_type = string

datatype 'p any = nil_any | Dyn go_type 'p

text \<open>\<^verbatim>\<open>memoryStore.data\<close>: chat key to the map of that chat, data key to value.\<close>

type_synonym 'p memoryStore = "string \<rightharpoonup> (string \<rightharpoonup> 'p any)"

definition NewInMemoryDataStore :: "'p memoryStore" where
  "NewInMemoryDataStore = Map.empty"

text \<open>\<^verbatim>\<open>LoadOrStore(chatKey, &sync.Map{})\<close>: the map of the chat, a new one where none is.\<close>

definition LoadOrStore_chat ::
  "'p memoryStore \<Rightarrow> string \<Rightarrow> (string \<rightharpoonup> 'p any) \<times> 'p memoryStore" where
  "LoadOrStore_chat m chatKey =
     (case m chatKey of
        Some d \<Rightarrow> (d, m)
      | None \<Rightarrow> (Map.empty, m(chatKey \<mapsto> Map.empty)))"

definition SetData ::
  "'p memoryStore \<Rightarrow> string \<Rightarrow> string \<Rightarrow> 'p any \<Rightarrow> error option \<times> 'p memoryStore" where
  "SetData m chatKey key v =
     (case LoadOrStore_chat m chatKey of
        (data, m') \<Rightarrow> (None, m'(chatKey \<mapsto> data(key \<mapsto> v))))"

text \<open>
  The pointer is the type of what it points to and the value there; the call returns the
  value it leaves there and the error. \<^verbatim>\<open>reflect.ValueOf\<close> of the nil interface is the
  zero \<^verbatim>\<open>Value\<close>, on which \<^verbatim>\<open>Type()\<close> panics.
\<close>

definition GetData ::
  "(go_type \<Rightarrow> go_type \<Rightarrow> bool) \<Rightarrow> 'p memoryStore \<Rightarrow> string \<Rightarrow> string \<Rightarrow>
   go_type \<times> 'p any \<Rightarrow> ('p any \<times> error option) outcome" where
  "GetData AssignableTo m chatKey key pointer =
     (case pointer of
        (T, cur) \<Rightarrow>
          (case m chatKey of
             None \<Rightarrow> Returned (cur, Some ErrDataKeyNotFound)
           | Some data \<Rightarrow>
               (case data key of
                  None \<Rightarrow> Returned (cur, Some ErrDataKeyNotFound)
                | Some v \<Rightarrow>
                    (case v of
                       nil_any \<Rightarrow> Panicked ''reflect: call of reflect.Value.Type on zero Value''
                     | Dyn t x \<Rightarrow>
                         if \<not> AssignableTo t T
                         then Returned
                                (cur,
                                 Some (ErrorString
                                         (''stored value of type '' @ t @
                                          '' is not assignable to type '' @ T)))
                         else Returned (Dyn t x, None)))))"

definition RemoveData ::
  "'p memoryStore \<Rightarrow> string \<Rightarrow> string \<Rightarrow> error option \<times> 'p memoryStore" where
  "RemoveData m chatKey key =
     (case LoadOrStore_chat m chatKey of
        (data, m') \<Rightarrow> (None, m'(chatKey \<mapsto> data(key := None))))"

definition ClearData :: "'p memoryStore \<Rightarrow> string \<Rightarrow> error option \<times> 'p memoryStore" where
  "ClearData m chatKey = (None, m(chatKey := None))"

text \<open>
  The generic functions of the package. A \<^verbatim>\<open>DataKey[T]\<close> is the type \<open>T\<close> with the key;
  \<open>zero\<close> is the zero value of \<open>T\<close>, the \<^verbatim>\<open>var result T\<close> of \<^verbatim>\<open>Get\<close>. The store is the
  one \<^verbatim>\<open>c.Store()\<close> returns.
\<close>

type_synonym DataKey = "go_type \<times> string"

definition nabot_Set ::
  "Context \<Rightarrow> DataKey \<Rightarrow> 'p any \<Rightarrow> 'p memoryStore \<Rightarrow> error option \<times> 'p memoryStore" where
  "nabot_Set c key v m =
     (case SetData m (ChatKey c) (snd key) v of
        (err, m') \<Rightarrow>
          (case err of
             Some e \<Rightarrow> (Some (WrapError ''failed to set data'' e), m')
           | None \<Rightarrow> (None, m')))"

definition nabot_Get ::
  "(go_type \<Rightarrow> go_type \<Rightarrow> bool) \<Rightarrow> 'p any \<Rightarrow> Context \<Rightarrow> DataKey \<Rightarrow> 'p memoryStore \<Rightarrow>
   ('p any \<times> error option) outcome" where
  "nabot_Get AssignableTo zero c key m =
     (case GetData AssignableTo m (ChatKey c) (snd key) (fst key, zero) of
        Panicked msg \<Rightarrow> Panicked msg
      | Returned (result, err) \<Rightarrow>
          (case err of
             Some e \<Rightarrow>
               if errors_Is e ErrDataKeyNotFound then Returned (result, Some e)
               else Returned (result, Some (WrapError ''failed to get data'' e))
           | None \<Rightarrow> Returned (result, None)))"

definition nabot_Remove ::
  "Context \<Rightarrow> DataKey \<Rightarrow> 'p memoryStore \<Rightarrow> error option \<times> 'p memoryStore" where
  "nabot_Remove c key m =
     (case RemoveData m (ChatKey c) (snd key) of
        (err, m') \<Rightarrow>
          (case err of
             Some e \<Rightarrow> (Some (WrapError ''failed to remove data'' e), m')
           | None \<Rightarrow> (None, m')))"

definition nabot_Clear :: "Context \<Rightarrow> 'p memoryStore \<Rightarrow> error option \<times> 'p memoryStore" where
  "nabot_Clear c m =
     (case ClearData m (ChatKey c) of
        (err, m') \<Rightarrow>
          (case err of
             Some e \<Rightarrow> (Some (WrapError ''failed to clear data'' e), m')
           | None \<Rightarrow> (None, m')))"

section \<open>Notions used in the statements\<close>

text \<open>The context a handler of the chain is given by \<^verbatim>\<open>processUpdate\<close>.\<close>

definition handler_ctx :: "('u, 'x) App \<Rightarrow> Context \<Rightarrow> 'x Handler \<Rightarrow> Context" where
  "handler_ctx a ctx h =
     ContextWithLogger ctx (With (logger a) ''handler'' (StringValue (Name h)))"

text \<open>
  Every handler of the list declines when they are run one after the other from \<open>w\<close>;
  the result is the world the last of them leaves.
\<close>

fun declines :: "('u, 'x) App \<Rightarrow> Context \<Rightarrow> 'x Handler list \<Rightarrow> 'x world \<Rightarrow> 'x world option" where
  "declines a ctx [] w = Some w"
| "declines a ctx (h # hs) w =
     (case Handle h (handler_ctx a ctx h) w of
        (err, w') \<Rightarrow> if Is err ErrPass then declines a ctx hs w' else None)"

text \<open>
  The registry as \<^verbatim>\<open>RegisterState\<close> builds it: a state is stored under its own name.
\<close>

definition wf_registry :: "(string \<rightharpoonup> 'x State) \<Rightarrow> bool" where
  "wf_registry reg = (\<forall>n st. reg n = Some st \<longrightarrow> BaseState_Name st = n)"

text \<open>The state \<open>st\<close> is the one registered under its name.\<close>

definition registered :: "'x StateHandler \<Rightarrow> 'x State \<Rightarrow> bool" where
  "registered s st = (states s (BaseState_Name st) = Some st)"

text \<open>The codec gives back the list of names it is given: marshalling it succeeds and
  parsing the result yields the same list.\<close>

definition json_roundtrip :: "json \<Rightarrow> string list \<Rightarrow> bool" where
  "json_roundtrip js names =
     (case Marshal js names of Inl e \<Rightarrow> False | Inr b \<Rightarrow> Unmarshal js b = Inr names)"

text \<open>
  The stack \<^verbatim>\<open>toState.Go\<close> writes when it has read \<open>old\<close>: cut after the first state
  with the name of the target, or with the target appended.
\<close>

definition toState_stack :: "'x State list \<Rightarrow> 'x State \<Rightarrow> 'x State list" where
  "toState_stack old state =
     (let idx = IndexFunc old (\<lambda>st. BaseState_Name st = BaseState_Name state)
      in if idx \<ge> 0 then take (nat (idx + 1)) old else old @ [state])"

text \<open>The stack \<^verbatim>\<open>getStack\<close> reads in a world.\<close>

definition stack_of :: "json \<Rightarrow> 'x StateHandler \<Rightarrow> string \<Rightarrow> 'x world \<Rightarrow> 'x State list option" where
  "stack_of js s key w = fst (fst (getStack js s key w))"

text \<open>The registry entries of a list of states: each under its name.\<close>

definition entries :: "'x State list \<Rightarrow> (string \<times> 'x State) list" where
  "entries ss = map (\<lambda>x. (ID x, x)) ss"

text \<open>What the data store holds for a data key of a chat.\<close>

definition stored :: "'p memoryStore \<Rightarrow> string \<Rightarrow> string \<Rightarrow> 'p any option" where
  "stored m chatKey key = (case m chatKey of None \<Rightarrow> None | Some data \<Rightarrow> data key)"

text \<open>
  A history of calls on a new store, and what the history says about one key of one chat:
  the value of its last \<^verbatim>\<open>Set\<close>, unless a \<^verbatim>\<open>Remove\<close> of the key or a \<^verbatim>\<open>Clear\<close> of the
  chat came after it.
\<close>

datatype 'p store_op = OpSet string string "'p any" | OpRemove string string | OpClear string

fun apply_op :: "'p memoryStore \<Rightarrow> 'p store_op \<Rightarrow> 'p memoryStore" where
  "apply_op m (OpSet chatKey key v) = snd (SetData m chatKey key v)"
| "apply_op m (OpRemove chatKey key) = snd (RemoveData m chatKey key)"
| "apply_op m (OpClear chatKey) = snd (ClearData m chatKey)"

definition run_ops :: "'p store_op list \<Rightarrow> 'p memoryStore" where
  "run_ops ops = foldl apply_op NewInMemoryDataStore ops"

fun track :: "string \<Rightarrow> string \<Rightarrow> 'p any option \<Rightarrow> 'p store_op \<Rightarrow> 'p any option" where
  "track chatKey key cur (OpSet c k v) = (if c = chatKey \<and> k = key then Some v else cur)"
| "track chatKey key cur (OpRemove c k) = (if c = chatKey \<and> k = key then None else cur)"
| "track chatKey key cur (OpClear c) = (if c = chatKey then None else cur)"

definition last_set :: "'p store_op list \<Rightarrow> string \<Rightarrow> string \<Rightarrow> 'p any option" where
  "last_set ops chatKey key = foldl (track chatKey key) None ops"

section \<open>Concrete applications, for running the model\<close>

text \<open>
  Three handlers on a world whose outside is a counter: the first declines, the second
  accepts, the third fails; each leaves its mark on the counter.
\<close>

definition ex_world :: "nat world" where
  "ex_world = \<lparr>stacks = Map.empty, logs = [], ext = 0\<rparr>"

definition h_decline :: "nat Handler" where
  "h_decline = \<lparr>Name = ''first'', Handle = (\<lambda>ctx w. (Some ErrPass, w\<lparr>ext := ext w + 1\<rparr>))\<rparr>"

definition h_accept :: "nat Handler" where
  "h_accept = \<lparr>Name = ''second'', Handle = (\<lambda>ctx w. (None, w\<lparr>ext := ext w + 10\<rparr>))\<rparr>"

definition h_fail :: "nat Handler" where
  "h_fail = \<lparr>Name = ''third'',
             Handle = (\<lambda>ctx w. (Some (ErrorString ''boom''), w\<lparr>ext := ext w + 100\<rparr>))\<rparr>"

definition ex_app :: "nat Handler list \<Rightarrow> (unit, nat) App" where
  "ex_app hs = \<lparr>handlers = hs, logger = [], extractChatInfo = (\<lambda>u. (''42'', ''42'', True))\<rparr>"

definition ex_ctx :: Context where
  "ex_ctx = \<lparr>ChatKey = ''42'', ChatID = ''42'', Logger = [(''chat'', StringValue ''42'')]\<rparr>"

text \<open>
  A codec for running the model: arrays of strings in JSON syntax, without white space,
  a backslash before a quote or a backslash inside a string, and \<^verbatim>\<open>null\<close> for the nil
  slice. Parsing takes the length of the input as fuel.
\<close>

definition bs :: char where
  "bs = CHR 0x5C"

fun escape :: "string \<Rightarrow> string" where
  "escape [] = []"
| "escape (c # cs) = (if c = dq \<or> c = bs then bs # c # escape cs else c # escape cs)"

fun join_names :: "string list \<Rightarrow> string" where
  "join_names [] = []"
| "join_names [n] = dq # escape n @ [dq]"
| "join_names (n # ns) = dq # escape n @ [dq] @ '','' @ join_names ns"

definition ex_Marshal :: "string list \<Rightarrow> error + bytes" where
  "ex_Marshal names = (if names = [] then Inr ''null'' else Inr (''['' @ join_names names @ '']''))"

fun parse_string :: "string \<Rightarrow> string \<Rightarrow> (string \<times> string) option" where
  "parse_string acc [] = None"
| "parse_string acc [c] = (if c = dq then Some (acc, []) else None)"
| "parse_string acc (c # d # ds) =
     (if c = dq then Some (acc, d # ds)
      else if c = bs then parse_string (acc @ [d]) ds
      else parse_string (acc @ [c]) (d # ds))"

fun parse_elems :: "nat \<Rightarrow> string \<Rightarrow> string list option" where
  "parse_elems 0 cs = None"
| "parse_elems (Suc n) [] = None"
| "parse_elems (Suc n) (c # cs) =
     (if c \<noteq> dq then None
      else (case parse_string [] cs of
              None \<Rightarrow> None
            | Some (name, rest) \<Rightarrow>
                (case rest of
                   [] \<Rightarrow> None
                 | r # rs \<Rightarrow>
                     if r = CHR '']'' then (if rs = [] then Some [name] else None)
                     else if r = CHR '','' then map_option ((#) name) (parse_elems n rs)
                     else None)))"

definition ex_Unmarshal :: "bytes \<Rightarrow> error + string list" where
  "ex_Unmarshal b =
     (if b = ''null'' \<or> b = ''[]'' then Inr []
      else (case b of
              [] \<Rightarrow> Inl (ErrorString ''unexpected end of JSON input'')
            | c # cs \<Rightarrow>
                if c \<noteq> CHR ''['' then Inl (ErrorString ''invalid character'')
                else (case parse_elems (length cs) cs of
                        None \<Rightarrow> Inl (ErrorString ''invalid character'')
                      | Some names \<Rightarrow> Inr names)))"

definition ex_json :: json where
  "ex_json = \<lparr>Marshal = ex_Marshal, Unmarshal = ex_Unmarshal\<rparr>"

text \<open>
  The two states of the quiz bot: \<open>main\<close> renders (one more message outside), \<open>quiz\<close>
  fails to render with the error of a missing data key and has \<open>Back\<close> as its next
  transition, set by the caller.
\<close>

definition st_main :: "nat State" where
  "st_main = BaseState ''main'' (Some (\<lambda>ctx w. (None, w\<lparr>ext := ext w + 1\<rparr>))) [] None"

definition st_quiz :: "nat State" where
  "st_quiz = BaseState ''quiz'' (Some (\<lambda>ctx w. (Some ErrDataKeyNotFound, w))) [] (Some Back)"

definition st_main' :: "nat State" where
  "st_main' = set_Next st_main (toState st_quiz)"

definition ex_sh :: "nat StateHandler" where
  "ex_sh = \<lparr>app_logger = [], states = [''main'' \<mapsto> st_main', ''quiz'' \<mapsto> st_quiz]\<rparr>"

text \<open>A world in which the blob \<open>b\<close> is stored for the chat of \<open>ex_ctx\<close>, and the blob
  the codec writes for a list of names.\<close>

definition w_blob :: "bytes \<Rightarrow> nat world" where
  "w_blob b = \<lparr>stacks = [''42'' \<mapsto> b], logs = [], ext = 0\<rparr>"

definition names_blob :: "string list \<Rightarrow> bytes" where
  "names_blob names = (case ex_Marshal names of Inl e \<Rightarrow> [] | Inr b \<Rightarrow> b)"

text \<open>
  Assignability for running the model: a type to itself and every type to the empty
  interface.
\<close>

definition ex_AssignableTo :: "go_type \<Rightarrow> go_type \<Rightarrow> bool" where
  "ex_AssignableTo t T = (t = T \<or> T = ''interface {}'')"

definition ex_ops :: "string store_op list" where
  "ex_ops = [OpSet ''42'' ''category'' (Dyn ''string'' ''math''),
             OpSet ''42'' ''answered'' (Dyn ''int'' ''3''),
             OpSet ''7'' ''category'' (Dyn ''string'' ''history''),
             OpRemove ''42'' ''answered'']"

section \<open>Theorems\<close>

subsection \<open>The handler chain\<close>

lemma loop_after_declines:
  "declines a ctx pre w = Some w1 \<Longrightarrow>
   \<exists>err' h'. processUpdate_loop a ctx (pre @ rest) (err0, h0, w) =
             processUpdate_loop a ctx rest (err', h', w1)
           \<and> (pre = [] \<longrightarrow> err' = err0 \<and> h' = h0)
           \<and> (pre \<noteq> [] \<longrightarrow> Is err' ErrPass \<and> h' = Some (last pre))"
proof (induction pre arbitrary: err0 h0 w)
  case Nil
  then show ?case by simp
next
  case (Cons p pre)
  obtain e wp where hp: "Handle p (handler_ctx a ctx p) w = (e, wp)"
    by (cases "Handle p (handler_ctx a ctx p) w")
  with Cons.prems have pass: "Is e ErrPass" and rest: "declines a ctx pre wp = Some w1"
    by (auto split: if_splits)
  from Cons.IH [OF rest, of e "Some p"] obtain err' h' where
    ih: "processUpdate_loop a ctx (pre @ rest) (e, Some p, wp) =
           processUpdate_loop a ctx rest (err', h', w1)"
        "pre = [] \<longrightarrow> err' = e \<and> h' = Some p"
        "pre \<noteq> [] \<longrightarrow> Is err' ErrPass \<and> h' = Some (last pre)"
    by blast
  have "processUpdate_loop a ctx ((p # pre) @ rest) (err0, h0, w) =
          processUpdate_loop a ctx (pre @ rest) (e, Some p, wp)"
    using hp pass by (simp add: handler_ctx_def)
  with ih pass show ?case by (cases "pre = []") auto
qed

lemma loop_stops:
  "Handle h (handler_ctx a ctx h) w1 = (e, w2) \<Longrightarrow> \<not> Is e ErrPass \<Longrightarrow>
   processUpdate_loop a ctx (h # post) (err', h', w1) = (e, Some h, w2)"
  by (simp add: handler_ctx_def)


text \<open>
  C1. The dispatcher walks the chain in registration order. When the handlers before \<open>h\<close>
  decline (their error satisfies \<^verbatim>\<open>errors.Is(err, ErrPass)\<close>) and \<open>h\<close> returns anything
  else, the loop ends with the error of \<open>h\<close>, with \<open>h\<close> as the handler and with the world
  \<open>h\<close> left: the handlers after \<open>h\<close> do not run, the chain cut after \<open>h\<close> gives the same.
  When all the handlers of the chain decline, no error is logged: the update is logged as
  not handled, at level Info, and the loop ends with a declined error (a chain without
  handlers logs nothing and leaves the world as it is).
\<close>

theorem processUpdate_dispatch:
  "(newContext a update = Some ctx \<and> handlers a = pre @ h # post \<and>
    declines a ctx pre w = Some w1 \<and> Handle h (handler_ctx a ctx h) w1 = (e, w2) \<and>
    \<not> Is e ErrPass \<longrightarrow>
      processUpdate_loop a ctx (pre @ h # post) (None, None, w) = (e, Some h, w2) \<and>
      processUpdate_loop a ctx (pre @ h # post) (None, None, w) =
        processUpdate_loop a ctx (pre @ [h]) (None, None, w) \<and>
      processUpdate G a update w =
        (case e of
           None \<Rightarrow> w2
         | Some e' \<Rightarrow>
             write_log (With (With (logger a) ''error'' (ErrorValue e'))
                          ''handler'' (StringValue (Name h)))
               LevelError ''nabot: failed to handle update'' w2))
   \<and>
   (newContext a update = Some ctx \<and> declines a ctx (handlers a) w = Some w1 \<longrightarrow>
      (handlers a \<noteq> [] \<longrightarrow>
         (\<exists>e. processUpdate_loop a ctx (handlers a) (None, None, w) =
                 (Some e, Some (last (handlers a)), w1) \<and> errors_Is e ErrPass)) \<and>
      processUpdate G a update w =
        (if handlers a = [] then w
         else write_log (logger a) LevelInfo
                ''nabot: update was not handled by any handler'' w1))"
proof (intro conjI impI)
  assume A: "newContext a update = Some ctx \<and> handlers a = pre @ h # post \<and>
    declines a ctx pre w = Some w1 \<and> Handle h (handler_ctx a ctx h) w1 = (e, w2) \<and>
    \<not> Is e ErrPass"
  then have d: "declines a ctx pre w = Some w1"
    and hh: "Handle h (handler_ctx a ctx h) w1 = (e, w2)" and np: "\<not> Is e ErrPass"
    by simp_all
  from loop_after_declines [OF d, of "h # post" None None] loop_stops [OF hh np]
  show full: "processUpdate_loop a ctx (pre @ h # post) (None, None, w) = (e, Some h, w2)"
    by auto
  from loop_after_declines [OF d, of "[h]" None None] loop_stops [OF hh np]
  have "processUpdate_loop a ctx (pre @ [h]) (None, None, w) = (e, Some h, w2)"
    by auto
  with full show "processUpdate_loop a ctx (pre @ h # post) (None, None, w) =
        processUpdate_loop a ctx (pre @ [h]) (None, None, w)"
    by simp
  from np have "\<And>e'. e = Some e' \<Longrightarrow> \<not> errors_Is e' ErrPass"
    by (simp add: Is_def)
  with A full show "processUpdate G a update w =
        (case e of
           None \<Rightarrow> w2
         | Some e' \<Rightarrow>
             write_log (With (With (logger a) ''error'' (ErrorValue e'))
                          ''handler'' (StringValue (Name h)))
               LevelError ''nabot: failed to handle update'' w2)"
    by (simp add: processUpdate_def split: option.splits)
next
  assume B: "newContext a update = Some ctx \<and> declines a ctx (handlers a) w = Some w1"
    and ne: "handlers a \<noteq> []"
  then have d: "declines a ctx (handlers a) w = Some w1" by simp
  from loop_after_declines [OF d, of "[]" None None] ne
  obtain err' where
    run: "processUpdate_loop a ctx (handlers a) (None, None, w) =
            (err', Some (last (handlers a)), w1)"
    and pass: "Is err' ErrPass"
    by auto
  from pass obtain e where e: "err' = Some e" "errors_Is e ErrPass"
    by (auto simp: Is_def split: option.splits)
  with run show "\<exists>e. processUpdate_loop a ctx (handlers a) (None, None, w) =
              (Some e, Some (last (handlers a)), w1) \<and> errors_Is e ErrPass"
    by blast
next
  assume B: "newContext a update = Some ctx \<and> declines a ctx (handlers a) w = Some w1"
  then have d: "declines a ctx (handlers a) w = Some w1" by simp
  show "processUpdate G a update w =
        (if handlers a = [] then w
         else write_log (logger a) LevelInfo
                ''nabot: update was not handled by any handler'' w1)"
  proof (cases "handlers a = []")
    case True
    with B show ?thesis by (simp add: processUpdate_def)
  next
    case False
    from loop_after_declines [OF d, of "[]" None None] False
    obtain err' where
      run: "processUpdate_loop a ctx (handlers a) (None, None, w) =
              (err', Some (last (handlers a)), w1)"
      and pass: "Is err' ErrPass"
      by auto
    from pass obtain e where "err' = Some e" "errors_Is e ErrPass"
      by (auto simp: Is_def split: option.splits)
    with B run False show ?thesis by (simp add: processUpdate_def)
  qed
qed

lemma ex_newContext: "newContext (ex_app hs) () = Some ex_ctx"
  by (simp add: newContext_def ex_app_def ex_ctx_def With_def)

theorem processUpdate_dispatch_witness:
  "(newContext (ex_app [h_decline, h_accept, h_fail]) () = Some ex_ctx \<and>
    handlers (ex_app [h_decline, h_accept, h_fail]) = [h_decline] @ h_accept # [h_fail] \<and>
    declines (ex_app [h_decline, h_accept, h_fail]) ex_ctx [h_decline] ex_world
      = Some (ex_world\<lparr>ext := 1\<rparr>) \<and>
    Handle h_accept (handler_ctx (ex_app [h_decline, h_accept, h_fail]) ex_ctx h_accept)
      (ex_world\<lparr>ext := 1\<rparr>) = (None, ex_world\<lparr>ext := 11\<rparr>) \<and>
    \<not> Is None ErrPass \<and>
    processUpdate (\<lambda>u. ''message'') (ex_app [h_decline, h_accept, h_fail]) () ex_world = ex_world\<lparr>ext := 11\<rparr>)
   \<and>
   (newContext (ex_app [h_decline, h_decline]) () = Some ex_ctx \<and>
    declines (ex_app [h_decline, h_decline]) ex_ctx
      (handlers (ex_app [h_decline, h_decline])) ex_world = Some (ex_world\<lparr>ext := 2\<rparr>) \<and>
    processUpdate (\<lambda>u. ''message'') (ex_app [h_decline, h_decline]) () ex_world =
      write_log [] LevelInfo ''nabot: update was not handled by any handler''
        (ex_world\<lparr>ext := 2\<rparr>))"
proof -
  have h1: "newContext (ex_app [h_decline, h_accept, h_fail]) () = Some ex_ctx"
    by (rule ex_newContext)
  have h2: "handlers (ex_app [h_decline, h_accept, h_fail]) = [h_decline] @ h_accept # [h_fail]"
    by (simp add: ex_app_def)
  have h3: "declines (ex_app [h_decline, h_accept, h_fail]) ex_ctx [h_decline] ex_world
      = Some (ex_world\<lparr>ext := 1\<rparr>)"
    by (simp add: h_decline_def Is_def ex_world_def)
  have h4: "Handle h_accept (handler_ctx (ex_app [h_decline, h_accept, h_fail]) ex_ctx h_accept)
      (ex_world\<lparr>ext := 1\<rparr>) = (None, ex_world\<lparr>ext := 11\<rparr>)"
    by (simp add: h_accept_def ex_world_def)
  have h5: "\<not> Is None ErrPass"
    by (simp add: Is_def)
  have g1: "newContext (ex_app [h_decline, h_decline]) () = Some ex_ctx"
    by (rule ex_newContext)
  have g2: "handlers (ex_app [h_decline, h_decline]) \<noteq> []"
    by (simp add: ex_app_def)
  have g3: "declines (ex_app [h_decline, h_decline]) ex_ctx
      (handlers (ex_app [h_decline, h_decline])) ex_world = Some (ex_world\<lparr>ext := 2\<rparr>)"
    by (simp add: ex_app_def h_decline_def Is_def ex_world_def)
  from processUpdate_dispatch [of "ex_app [h_decline, h_accept, h_fail]" "()" ex_ctx
        "[h_decline]" h_accept "[h_fail]" ex_world "ex_world\<lparr>ext := 1\<rparr>" None
        "ex_world\<lparr>ext := 11\<rparr>" "\<lambda>u. ''message''"]
    h1 h2 h3 h4 h5
  have c1: "processUpdate (\<lambda>u. ''message'') (ex_app [h_decline, h_accept, h_fail]) () ex_world
              = ex_world\<lparr>ext := 11\<rparr>"
    by simp
  from processUpdate_dispatch [of "ex_app [h_decline, h_decline]" "()" ex_ctx
        _ _ _ ex_world "ex_world\<lparr>ext := 2\<rparr>" _ _ "\<lambda>u. ''message''"]
    g1 g3
  have c2: "processUpdate (\<lambda>u. ''message'') (ex_app [h_decline, h_decline]) () ex_world =
      write_log [] LevelInfo ''nabot: update was not handled by any handler''
        (ex_world\<lparr>ext := 2\<rparr>)"
    by (simp add: ex_app_def)
  from h1 h2 h3 h4 h5 g1 g3 c1 c2 show ?thesis by blast
qed

subsection \<open>Reading and writing the stack\<close>

lemma getStack_loop_filter:
  "getStack_loop reg names = map (\<lambda>n. the (reg n)) (filter (\<lambda>n. reg n \<noteq> None) names)"
  by (induction names) (auto split: option.splits)

lemma getStack_loop_in_registry:
  "x \<in> set (getStack_loop reg names) \<Longrightarrow> \<exists>n. reg n = Some x"
  by (induction names) (auto split: option.splits)

lemma getStack_loop_of_names:
  "\<forall>x \<in> set st. reg (BaseState_Name x) = Some x \<Longrightarrow>
   getStack_loop reg (map BaseState_Name st) = st"
  by (induction st) auto

lemma setStack_loop_of_registered:
  "\<forall>x \<in> set st. reg (BaseState_Name x) = Some x \<Longrightarrow>
   setStack_loop reg st = map BaseState_Name st"
  by (induction st) auto

lemma wf_registry_lookup:
  "wf_registry reg \<Longrightarrow> reg n = Some x \<Longrightarrow> reg (BaseState_Name x) = Some x"
  by (simp add: wf_registry_def)

lemma getStack_no_error:
  "snd (fst (getStack js s key w)) = None"
  by (simp add: getStack_def memoryStateStore_GetStack_def Is_def Let_def
           split: option.splits sum.splits)

lemma getStack_keeps:
  "stacks (snd (getStack js s key w)) = stacks w \<and> ext (snd (getStack js s key w)) = ext w"
  by (simp add: getStack_def memoryStateStore_GetStack_def Is_def Let_def write_log_def
           split: option.splits sum.splits)

lemma getStack_Some:
  assumes "getStack js s key w = ((Some st, err), w1)"
  shows "st \<noteq> [] \<and> err = None \<and> w1 = w \<and> (\<forall>x \<in> set st. \<exists>n. states s n = Some x)"
  using assms
  by (auto simp: getStack_def memoryStateStore_GetStack_def Is_def Let_def
           split: option.splits sum.splits if_splits dest: getStack_loop_in_registry)

lemma getStack_Some_registered:
  assumes "getStack js s key w = ((Some st, err), w1)" and "wf_registry (states s)"
  shows "\<forall>x \<in> set st. registered s x"
  using getStack_Some [OF assms(1)] assms(2)
  by (auto simp: registered_def dest: wf_registry_lookup)

lemma stack_of_depends:
  "stacks w key = stacks w' key \<Longrightarrow> stack_of js s key w = stack_of js s key w'"
  by (simp add: stack_of_def getStack_def memoryStateStore_GetStack_def Is_def Let_def
           split: option.splits sum.splits)

lemma setStack_then_getStack:
  assumes reg: "\<forall>x \<in> set st. registered s x"
      and rt: "json_roundtrip js (map BaseState_Name st)"
  shows "fst (setStack js s key st w) = None \<and>
         logs (snd (setStack js s key st w)) = logs w \<and>
         ext (snd (setStack js s key st w)) = ext w \<and>
         (\<forall>k. k \<noteq> key \<longrightarrow> stacks (snd (setStack js s key st w)) k = stacks w k) \<and>
         getStack js s key (snd (setStack js s key st w)) =
           ((if st = [] then None else Some st, None), snd (setStack js s key st w))"
proof -
  from reg have names: "setStack_loop (states s) st = map BaseState_Name st"
    by (intro setStack_loop_of_registered) (simp add: registered_def)
  from reg have rb: "getStack_loop (states s) (map BaseState_Name st) = st"
    by (intro getStack_loop_of_names) (simp add: registered_def)
  from rt obtain b where b: "Marshal js (map BaseState_Name st) = Inr b"
      "Unmarshal js b = Inr (map BaseState_Name st)"
    by (auto simp: json_roundtrip_def split: sum.splits)
  have w2: "setStack js s key st w = (None, w\<lparr>stacks := (stacks w)(key \<mapsto> b)\<rparr>)"
    by (simp add: setStack_def names b memoryStateStore_SetStack_def)
  show ?thesis
    by (simp add: w2 getStack_def memoryStateStore_GetStack_def Is_def b rb)
qed

lemma IndexFunc_none:
  "\<forall>x \<in> set xs. \<not> f x \<Longrightarrow> IndexFunc xs f = - 1"
  by (induction xs) auto

lemma IndexFunc_nonneg:
  "IndexFunc xs f \<ge> - 1"
  by (induction xs) (auto simp: Let_def)

lemma IndexFunc_first:
  "i < length xs \<Longrightarrow> f (xs ! i) \<Longrightarrow> \<forall>j < i. \<not> f (xs ! j) \<Longrightarrow> IndexFunc xs f = int i"
proof (induction xs arbitrary: i)
  case Nil
  then show ?case by simp
next
  case (Cons x xs)
  show ?case
  proof (cases i)
    case 0
    with Cons.prems show ?thesis by simp
  next
    case (Suc k)
    with Cons.prems have nx: "\<not> f x" by auto
    from Suc Cons.prems have "k < length xs" "f (xs ! k)" "\<forall>j < k. \<not> f (xs ! j)"
      by auto
    then have "IndexFunc xs f = int k" by (rule Cons.IH)
    with nx Suc show ?thesis by (simp add: Let_def)
  qed
qed

subsection \<open>Facts about the concrete handler and codec\<close>

lemma ex_json_simps:
  "Marshal ex_json = ex_Marshal" "Unmarshal ex_json = ex_Unmarshal"
  by (simp_all add: ex_json_def)

lemma ex_sh_registered:
  "registered ex_sh st_main'" "registered ex_sh st_quiz"
  by (simp_all add: registered_def ex_sh_def BaseState_Name_def st_main'_def st_main_def
        st_quiz_def set_Next_def)

lemma ex_names:
  "BaseState_Name st_main' = ''main''" "BaseState_Name st_quiz = ''quiz''"
  by (simp_all add: BaseState_Name_def st_main'_def st_main_def st_quiz_def set_Next_def)

lemma ex_roundtrip:
  "json_roundtrip ex_json []"
  "json_roundtrip ex_json [''main'']"
  "json_roundtrip ex_json [''main'', ''quiz'']"
  by (simp_all add: json_roundtrip_def ex_json_def ex_Marshal_def ex_Unmarshal_def dq_def bs_def)

lemma ex_wf: "wf_registry (states ex_sh)"
  by (simp add: wf_registry_def ex_sh_def st_main'_def st_main_def st_quiz_def set_Next_def
        BaseState_Name_def)

subsection \<open>Round trip of the persisted stack\<close>

text \<open>
  C5. Writing a non-empty list of registered states with \<^verbatim>\<open>setStack\<close> and reading it
  back with \<^verbatim>\<open>getStack\<close> yields the same states in the same order, for every chat key
  and every world, when the codec gives back the list of their names.
\<close>

theorem setStack_getStack_roundtrip:
  assumes "st \<noteq> []"
      and "\<forall>x \<in> set st. registered s x"
      and "json_roundtrip js (map BaseState_Name st)"
  shows "fst (setStack js s key st w) = None \<and>
         getStack js s key (snd (setStack js s key st w)) =
           ((Some st, None), snd (setStack js s key st w))"
  using setStack_then_getStack [OF assms(2,3), of key w] assms(1) by simp

theorem setStack_getStack_roundtrip_witness:
  "[st_main', st_quiz] \<noteq> [] \<and>
   registered ex_sh st_main' \<and> registered ex_sh st_quiz \<and>
   json_roundtrip ex_json (map BaseState_Name [st_main', st_quiz]) \<and>
   fst (setStack ex_json ex_sh ''42'' [st_main', st_quiz] ex_world) = None \<and>
   getStack ex_json ex_sh ''42'' (snd (setStack ex_json ex_sh ''42'' [st_main', st_quiz] ex_world))
     = ((Some [st_main', st_quiz], None),
        snd (setStack ex_json ex_sh ''42'' [st_main', st_quiz] ex_world))"
proof -
  have a: "[st_main', st_quiz] \<noteq> []" by simp
  have b: "\<forall>x \<in> set [st_main', st_quiz]. registered ex_sh x"
    by (simp add: ex_sh_registered)
  have c: "json_roundtrip ex_json (map BaseState_Name [st_main', st_quiz])"
    by (simp add: ex_names ex_roundtrip)
  from setStack_getStack_roundtrip [OF a b c, of "''42''" ex_world] a c ex_sh_registered
  show ?thesis by blast
qed

subsection \<open>The read path\<close>

lemma StateHandler_Handle_None:
  "getStack js s (ChatKey ctx) w = ((None, None), w1) \<Longrightarrow>
   StateHandler_Handle js s ctx w = Returned (Some ErrPass, w1)"
  by (simp add: StateHandler_Handle_def)

lemma StateHandler_Handle_Some:
  "getStack js s (ChatKey ctx) w = ((Some st, None), w1) \<Longrightarrow> st \<noteq> [] \<Longrightarrow>
   StateHandler_Handle js s ctx w =
     Returned (BaseState_Handle (last st)
                 (ContextWithLogger ctx
                    (With (Logger ctx) ''state'' (StringValue (BaseState_Name (last st))))) w1)"
  by (simp add: StateHandler_Handle_def Let_def last_conv_nth)

text \<open>
  C4. The read path returns no error. With no blob stored for the chat there is no active
  state and \<^verbatim>\<open>StateHandler.Handle\<close> declines with \<^verbatim>\<open>ErrPass\<close>. A blob that does not parse
  is logged and treated as absent: no error is returned and the handler declines. From a
  blob that parses, the names that are not in the registry are left out, the others are
  replaced by their states in order; when none is left the stack is absent and the
  handler declines.
\<close>

theorem getStack_soft_failure:
  "snd (fst (getStack js s (ChatKey ctx) w)) = None \<and>
   (stacks w (ChatKey ctx) = None \<longrightarrow>
      getStack js s (ChatKey ctx) w = ((None, None), w) \<and>
      StateHandler_Handle js s ctx w = Returned (Some ErrPass, w)) \<and>
   (stacks w (ChatKey ctx) = Some b \<and> Unmarshal js b = Inl e \<longrightarrow>
      getStack js s (ChatKey ctx) w =
        ((None, None),
         write_log (With (app_logger s) ''error'' (ErrorValue e)) LevelError
           ''failed to unmarshal stored stack. skipping state handler'' w) \<and>
      StateHandler_Handle js s ctx w =
        Returned (Some ErrPass,
          write_log (With (app_logger s) ''error'' (ErrorValue e)) LevelError
            ''failed to unmarshal stored stack. skipping state handler'' w)) \<and>
   (stacks w (ChatKey ctx) = Some b \<and> Unmarshal js b = Inr names \<longrightarrow>
      getStack js s (ChatKey ctx) w =
        ((if filter (\<lambda>n. states s n \<noteq> None) names = [] then None
          else Some (map (\<lambda>n. the (states s n)) (filter (\<lambda>n. states s n \<noteq> None) names)),
          None), w) \<and>
      (filter (\<lambda>n. states s n \<noteq> None) names = [] \<longrightarrow>
         StateHandler_Handle js s ctx w = Returned (Some ErrPass, w)))"
proof (intro conjI impI)
  show "snd (fst (getStack js s (ChatKey ctx) w)) = None"
    by (rule getStack_no_error)
next
  assume "stacks w (ChatKey ctx) = None"
  then show g: "getStack js s (ChatKey ctx) w = ((None, None), w)"
    by (simp add: getStack_def memoryStateStore_GetStack_def Is_def)
  then show "StateHandler_Handle js s ctx w = Returned (Some ErrPass, w)"
    by (rule StateHandler_Handle_None)
next
  assume "stacks w (ChatKey ctx) = Some b \<and> Unmarshal js b = Inl e"
  then show g: "getStack js s (ChatKey ctx) w =
        ((None, None),
         write_log (With (app_logger s) ''error'' (ErrorValue e)) LevelError
           ''failed to unmarshal stored stack. skipping state handler'' w)"
    by (simp add: getStack_def memoryStateStore_GetStack_def Is_def)
  then show "StateHandler_Handle js s ctx w =
        Returned (Some ErrPass,
          write_log (With (app_logger s) ''error'' (ErrorValue e)) LevelError
            ''failed to unmarshal stored stack. skipping state handler'' w)"
    by (rule StateHandler_Handle_None)
next
  assume a: "stacks w (ChatKey ctx) = Some b \<and> Unmarshal js b = Inr names"
  then show g: "getStack js s (ChatKey ctx) w =
        ((if filter (\<lambda>n. states s n \<noteq> None) names = [] then None
          else Some (map (\<lambda>n. the (states s n)) (filter (\<lambda>n. states s n \<noteq> None) names)),
          None), w)"
    by (simp add: getStack_def memoryStateStore_GetStack_def Is_def getStack_loop_filter)
  assume "filter (\<lambda>n. states s n \<noteq> None) names = []"
  with g have "getStack js s (ChatKey ctx) w = ((None, None), w)" by simp
  then show "StateHandler_Handle js s ctx w = Returned (Some ErrPass, w)"
    by (rule StateHandler_Handle_None)
qed


lemma ex_ChatKey: "ChatKey ex_ctx = ''42''"
  by (simp add: ex_ctx_def)

lemma ex_Unmarshal_names_blob:
  "ex_Unmarshal ''{oops'' = Inl (ErrorString ''invalid character'')"
  "ex_Unmarshal (names_blob [''main'', ''gone'', ''quiz'']) = Inr [''main'', ''gone'', ''quiz'']"
  "ex_Unmarshal (names_blob [''gone'']) = Inr [''gone'']"
  "ex_Unmarshal (names_blob [''main'', ''quiz'']) = Inr [''main'', ''quiz'']"
  "ex_Unmarshal (names_blob [''main'']) = Inr [''main'']"
  by (simp_all add: names_blob_def ex_Marshal_def ex_Unmarshal_def dq_def bs_def)

lemma ex_sh_states:
  "states ex_sh ''main'' = Some st_main'" "states ex_sh ''quiz'' = Some st_quiz"
  "states ex_sh ''gone'' = None"
  by (simp_all add: ex_sh_def)

theorem getStack_soft_failure_witness:
  "(stacks ex_world (ChatKey ex_ctx) = None \<and>
    getStack ex_json ex_sh (ChatKey ex_ctx) ex_world = ((None, None), ex_world) \<and>
    StateHandler_Handle ex_json ex_sh ex_ctx ex_world = Returned (Some ErrPass, ex_world)) \<and>
   (stacks (w_blob ''{oops'') (ChatKey ex_ctx) = Some ''{oops'' \<and>
    Unmarshal ex_json ''{oops'' = Inl (ErrorString ''invalid character'') \<and>
    StateHandler_Handle ex_json ex_sh ex_ctx (w_blob ''{oops'') =
      Returned (Some ErrPass,
        write_log (With (app_logger ex_sh) ''error'' (ErrorValue (ErrorString ''invalid character'')))
          LevelError ''failed to unmarshal stored stack. skipping state handler''
          (w_blob ''{oops''))) \<and>
   (stacks (w_blob (names_blob [''main'', ''gone'', ''quiz''])) (ChatKey ex_ctx) =
      Some (names_blob [''main'', ''gone'', ''quiz'']) \<and>
    Unmarshal ex_json (names_blob [''main'', ''gone'', ''quiz'']) =
      Inr [''main'', ''gone'', ''quiz''] \<and>
    getStack ex_json ex_sh (ChatKey ex_ctx) (w_blob (names_blob [''main'', ''gone'', ''quiz''])) =
      ((Some [st_main', st_quiz], None), w_blob (names_blob [''main'', ''gone'', ''quiz'']))) \<and>
   (stacks (w_blob (names_blob [''gone''])) (ChatKey ex_ctx) = Some (names_blob [''gone'']) \<and>
    Unmarshal ex_json (names_blob [''gone'']) = Inr [''gone''] \<and>
    filter (\<lambda>n. states ex_sh n \<noteq> None) [''gone''] = [] \<and>
    StateHandler_Handle ex_json ex_sh ex_ctx (w_blob (names_blob [''gone''])) =
      Returned (Some ErrPass, w_blob (names_blob [''gone''])))"
proof -
  have a1: "stacks ex_world (ChatKey ex_ctx) = None"
    by (simp add: ex_world_def)
  have b1: "stacks (w_blob ''{oops'') (ChatKey ex_ctx) = Some ''{oops''"
    by (simp add: w_blob_def ex_ChatKey)
  have b2: "Unmarshal ex_json ''{oops'' = Inl (ErrorString ''invalid character'')"
    by (simp add: ex_json_simps ex_Unmarshal_names_blob)
  have c1: "stacks (w_blob (names_blob [''main'', ''gone'', ''quiz''])) (ChatKey ex_ctx) =
      Some (names_blob [''main'', ''gone'', ''quiz''])"
    by (simp add: w_blob_def ex_ChatKey)
  have c2: "Unmarshal ex_json (names_blob [''main'', ''gone'', ''quiz'']) =
      Inr [''main'', ''gone'', ''quiz'']"
    by (simp add: ex_json_simps ex_Unmarshal_names_blob)
  have d1: "stacks (w_blob (names_blob [''gone''])) (ChatKey ex_ctx) = Some (names_blob [''gone''])"
    by (simp add: w_blob_def ex_ChatKey)
  have d2: "Unmarshal ex_json (names_blob [''gone'']) = Inr [''gone'']"
    by (simp add: ex_json_simps ex_Unmarshal_names_blob)
  have d3: "filter (\<lambda>n. states ex_sh n \<noteq> None) [''gone''] = []"
    by (simp add: ex_sh_states)
  from getStack_soft_failure [of ex_json ex_sh ex_ctx ex_world] a1
  have t1: "getStack ex_json ex_sh (ChatKey ex_ctx) ex_world = ((None, None), ex_world) \<and>
    StateHandler_Handle ex_json ex_sh ex_ctx ex_world = Returned (Some ErrPass, ex_world)"
    by blast
  from getStack_soft_failure [of ex_json ex_sh ex_ctx "w_blob ''{oops''" "''{oops''"
      "ErrorString ''invalid character''"] b1 b2
  have t2: "StateHandler_Handle ex_json ex_sh ex_ctx (w_blob ''{oops'') =
      Returned (Some ErrPass,
        write_log (With (app_logger ex_sh) ''error'' (ErrorValue (ErrorString ''invalid character'')))
          LevelError ''failed to unmarshal stored stack. skipping state handler''
          (w_blob ''{oops''))"
    by blast
  from getStack_soft_failure [of ex_json ex_sh ex_ctx
      "w_blob (names_blob [''main'', ''gone'', ''quiz''])"
      "names_blob [''main'', ''gone'', ''quiz'']" _ "[''main'', ''gone'', ''quiz'']"] c1 c2
  have "getStack ex_json ex_sh (ChatKey ex_ctx) (w_blob (names_blob [''main'', ''gone'', ''quiz''])) =
        ((if filter (\<lambda>n. states ex_sh n \<noteq> None) [''main'', ''gone'', ''quiz''] = [] then None
          else Some (map (\<lambda>n. the (states ex_sh n))
                 (filter (\<lambda>n. states ex_sh n \<noteq> None) [''main'', ''gone'', ''quiz''])),
          None), w_blob (names_blob [''main'', ''gone'', ''quiz'']))"
    by blast
  then have t3: "getStack ex_json ex_sh (ChatKey ex_ctx)
        (w_blob (names_blob [''main'', ''gone'', ''quiz''])) =
      ((Some [st_main', st_quiz], None), w_blob (names_blob [''main'', ''gone'', ''quiz'']))"
    by (simp add: ex_sh_states)
  from getStack_soft_failure [of ex_json ex_sh ex_ctx "w_blob (names_blob [''gone''])"
      "names_blob [''gone'']" _ "[''gone'']"] d1 d2 d3
  have t4: "StateHandler_Handle ex_json ex_sh ex_ctx (w_blob (names_blob [''gone''])) =
      Returned (Some ErrPass, w_blob (names_blob [''gone'']))"
    by blast
  from a1 b1 b2 c1 c2 d1 d2 d3 t1 t2 t3 t4 show ?thesis by blast
qed

text \<open>
  C10. \<^verbatim>\<open>getStack\<close> returns no error and either the nil slice or a slice with at least one
  state, all of them states of the registry. So \<^verbatim>\<open>StateHandler.Handle\<close> does not panic on
  \<^verbatim>\<open>stack[len(stack)-1]\<close>: it declines when the slice is nil, and otherwise hands the
  update to the last state of the slice, a registered state.
\<close>

theorem getStack_never_empty:
  "(case getStack js s (ChatKey ctx) w of
      ((stack, err), w1) \<Rightarrow>
        err = None \<and>
        (case stack of
           None \<Rightarrow> StateHandler_Handle js s ctx w = Returned (Some ErrPass, w1)
         | Some st \<Rightarrow>
             st \<noteq> [] \<and>
             (\<forall>x \<in> set st. \<exists>n. states s n = Some x) \<and>
             (\<exists>n. states s n = Some (last st)) \<and>
             StateHandler_Handle js s ctx w =
               Returned (BaseState_Handle (last st)
                  (ContextWithLogger ctx
                     (With (Logger ctx) ''state'' (StringValue (BaseState_Name (last st)))))
                  w1))) \<and>
   (\<forall>msg. StateHandler_Handle js s ctx w \<noteq> Panicked msg)"
proof -
  obtain stack err w1 where g: "getStack js s (ChatKey ctx) w = ((stack, err), w1)"
    by (metis surj_pair)
  from getStack_no_error [of js s "ChatKey ctx" w] g have err: "err = None" by simp
  show ?thesis
  proof (cases stack)
    case None
    with g err have "StateHandler_Handle js s ctx w = Returned (Some ErrPass, w1)"
      by (intro StateHandler_Handle_None) simp
    with g err None show ?thesis by simp
  next
    case (Some st)
    with g have gs: "getStack js s (ChatKey ctx) w = ((Some st, err), w1)" by simp
    from getStack_Some [OF gs] have ne: "st \<noteq> []"
      and reg: "\<forall>x \<in> set st. \<exists>n. states s n = Some x"
      by simp_all
    from ne reg have top: "\<exists>n. states s n = Some (last st)" by simp
    from gs err ne have "StateHandler_Handle js s ctx w =
               Returned (BaseState_Handle (last st)
                  (ContextWithLogger ctx
                     (With (Logger ctx) ''state'' (StringValue (BaseState_Name (last st)))))
                  w1)"
      by (intro StateHandler_Handle_Some) simp_all
    with g err Some ne reg top show ?thesis by simp
  qed
qed

theorem getStack_never_empty_witness:
  "getStack ex_json ex_sh (ChatKey ex_ctx) (w_blob (names_blob [''main'', ''gone'', ''quiz''])) =
     ((Some [st_main', st_quiz], None), w_blob (names_blob [''main'', ''gone'', ''quiz''])) \<and>
   [st_main', st_quiz] \<noteq> [] \<and>
   (\<exists>n. states ex_sh n = Some st_main') \<and> (\<exists>n. states ex_sh n = Some st_quiz) \<and>
   StateHandler_Handle ex_json ex_sh ex_ctx (w_blob (names_blob [''main'', ''gone'', ''quiz''])) =
     Returned (BaseState_Handle st_quiz
        (ContextWithLogger ex_ctx (With (Logger ex_ctx) ''state'' (StringValue ''quiz'')))
        (w_blob (names_blob [''main'', ''gone'', ''quiz''])))"
proof -
  have g: "getStack ex_json ex_sh (ChatKey ex_ctx)
             (w_blob (names_blob [''main'', ''gone'', ''quiz''])) =
     ((Some [st_main', st_quiz], None), w_blob (names_blob [''main'', ''gone'', ''quiz'']))"
    by (simp add: getStack_def memoryStateStore_GetStack_def Is_def w_blob_def ex_ChatKey
          ex_json_simps ex_Unmarshal_names_blob ex_sh_states)
  from getStack_never_empty [of ex_json ex_sh ex_ctx
         "w_blob (names_blob [''main'', ''gone'', ''quiz''])"]
  show ?thesis
    unfolding g by (simp add: ex_names)
qed

subsection \<open>Going to a state\<close>

lemma toState_stack_absent:
  "\<forall>x \<in> set old. BaseState_Name x \<noteq> BaseState_Name S \<Longrightarrow> toState_stack old S = old @ [S]"
  by (simp add: toState_stack_def IndexFunc_none)

lemma toState_stack_present:
  "i < length old \<Longrightarrow> BaseState_Name (old ! i) = BaseState_Name S \<Longrightarrow>
   \<forall>j < i. BaseState_Name (old ! j) \<noteq> BaseState_Name S \<Longrightarrow>
   toState_stack old S = take (Suc i) old"
  using IndexFunc_first [of i old "\<lambda>st. BaseState_Name st = BaseState_Name S"]
  by (simp add: toState_stack_def nat_add_distrib)

lemma toState_stack_nonempty: "toState_stack old S \<noteq> []"
proof (cases "IndexFunc old (\<lambda>st. BaseState_Name st = BaseState_Name S) \<ge> 0")
  case True
  have "old \<noteq> []"
  proof
    assume "old = []"
    with True show False by simp
  qed
  with True show ?thesis by (simp add: toState_stack_def)
next
  case False
  then show ?thesis by (simp add: toState_stack_def)
qed

lemma toState_stack_subset: "set (toState_stack old S) \<subseteq> insert S (set old)"
  by (auto simp: toState_stack_def Let_def dest: in_set_takeD)

text \<open>A stack without repeated names stays so: \<^verbatim>\<open>toState.Go\<close> never writes a name twice.\<close>

lemma IndexFunc_negative:
  "IndexFunc xs f < 0 \<Longrightarrow> \<forall>x \<in> set xs. \<not> f x"
  by (induction xs) (auto simp: Let_def split: if_splits)

lemma toState_stack_distinct:
  assumes "distinct (map BaseState_Name old)"
  shows "distinct (map BaseState_Name (toState_stack old S))"
proof (cases "IndexFunc old (\<lambda>st. BaseState_Name st = BaseState_Name S) \<ge> 0")
  case True
  with assms show ?thesis
    by (simp add: toState_stack_def take_map [symmetric])
next
  case False
  then have "\<forall>x \<in> set old. BaseState_Name x \<noteq> BaseState_Name S"
    using IndexFunc_negative [of old "\<lambda>st. BaseState_Name st = BaseState_Name S"] by simp
  with assms False show ?thesis
    by (auto simp: toState_stack_def)
qed

lemma getStack_elems_registered:
  assumes "getStack js s key w = ((stack, err), w1)" and "wf_registry (states s)"
  shows "\<forall>x \<in> set (elems stack). registered s x"
proof (cases stack)
  case None
  then show ?thesis by (simp add: elems_def)
next
  case (Some st)
  with assms(1) have "getStack js s key w = ((Some st, err), w1)" by simp
  from getStack_Some_registered [OF this assms(2)] Some show ?thesis
    by (simp add: elems_def)
qed

lemma toState_Go_commit:
  assumes wf: "wf_registry (states s)"
      and reg: "registered s S"
      and rd: "getStack js s (ChatKey ctx) w = ((stack, err), w1)"
      and rt: "json_roundtrip js (map BaseState_Name (toState_stack (elems stack) S))"
  shows "toState_Go js s S ctx w =
           BaseState_Render S ctx
             (snd (setStack js s (ChatKey ctx) (toState_stack (elems stack) S) w1)) \<and>
         getStack js s (ChatKey ctx)
             (snd (setStack js s (ChatKey ctx) (toState_stack (elems stack) S) w1)) =
           ((Some (toState_stack (elems stack) S), None),
            snd (setStack js s (ChatKey ctx) (toState_stack (elems stack) S) w1))"
proof -
  let ?new = "toState_stack (elems stack) S"
  from getStack_no_error [of js s "ChatKey ctx" w] rd have err: "err = None" by simp
  from getStack_elems_registered [OF rd wf] reg toState_stack_subset [of "elems stack" S]
  have all: "\<forall>x \<in> set ?new. registered s x" by auto
  note sg = setStack_then_getStack [OF all rt, of "ChatKey ctx" w1]
  obtain e2 w2 where st: "setStack js s (ChatKey ctx) ?new w1 = (e2, w2)"
    by (cases "setStack js s (ChatKey ctx) ?new w1")
  with sg have e2: "e2 = None" by simp
  have "toState_Go js s S ctx w = BaseState_Render S ctx w2"
    using rd err st e2 by (simp add: toState_Go_def toState_stack_def Let_def)
  with sg st toState_stack_nonempty [of "elems stack" S] show ?thesis by simp
qed


lemma stack_of_getStack:
  "getStack js s key w = ((stack, err), w1) \<Longrightarrow> stack_of js s key w = stack"
  by (simp add: stack_of_def)

text \<open>
  C2. \<^verbatim>\<open>toState(S).Go\<close> for a registered state \<open>S\<close> reads the stack \<open>old\<close> of the chat.
  When no state of \<open>old\<close> has the name of \<open>S\<close>, the stack it persists is \<open>old\<close> with \<open>S\<close>
  appended; when \<open>S\<close> is on \<open>old\<close> at index \<open>i\<close> (the first state with that name), it is
  the first \<open>i + 1\<close> states of \<open>old\<close>. The new stack is what \<^verbatim>\<open>getStack\<close> reads in the
  world handed to \<^verbatim>\<open>S.Render\<close>, whose result is the result of \<^verbatim>\<open>Go\<close>, and it is what
  \<^verbatim>\<open>getStack\<close> reads after \<^verbatim>\<open>Go\<close> when rendering leaves the blob of the chat alone.
\<close>

theorem toState_Go_push_or_truncate:
  fixes js :: json and s :: "'x StateHandler" and S :: "'x State" and ctx :: Context
    and w :: "'x world" and i :: nat
  defines "old \<equiv> elems (stack_of js s (ChatKey ctx) w)"
      and "written \<equiv> \<lambda>new. snd (setStack js s (ChatKey ctx) new
                                    (snd (getStack js s (ChatKey ctx) w)))"
      and "after \<equiv> snd (toState_Go js s S ctx w)"
  assumes wf: "wf_registry (states s)" and reg: "registered s S"
  shows
    "((\<forall>x \<in> set old. BaseState_Name x \<noteq> BaseState_Name S) \<and>
      json_roundtrip js (map BaseState_Name (old @ [S])) \<longrightarrow>
        stack_of js s (ChatKey ctx) (written (old @ [S])) = Some (old @ [S]) \<and>
        toState_Go js s S ctx w = BaseState_Render S ctx (written (old @ [S])) \<and>
        (stacks after (ChatKey ctx) = stacks (written (old @ [S])) (ChatKey ctx) \<longrightarrow>
           stack_of js s (ChatKey ctx) after = Some (old @ [S])))
     \<and>
     (i < length old \<and> BaseState_Name (old ! i) = BaseState_Name S \<and>
      (\<forall>j < i. BaseState_Name (old ! j) \<noteq> BaseState_Name S) \<and>
      json_roundtrip js (map BaseState_Name (take (Suc i) old)) \<longrightarrow>
        stack_of js s (ChatKey ctx) (written (take (Suc i) old)) = Some (take (Suc i) old) \<and>
        length (take (Suc i) old) = i + 1 \<and>
        toState_Go js s S ctx w = BaseState_Render S ctx (written (take (Suc i) old)) \<and>
        (stacks after (ChatKey ctx) = stacks (written (take (Suc i) old)) (ChatKey ctx) \<longrightarrow>
           stack_of js s (ChatKey ctx) after = Some (take (Suc i) old)))"
proof -
  obtain stack err w1 where rd: "getStack js s (ChatKey ctx) w = ((stack, err), w1)"
    by (metis surj_pair)
  have old: "old = elems stack"
    by (simp add: old_def stack_of_getStack [OF rd])
  have wr: "\<And>new. written new = snd (setStack js s (ChatKey ctx) new w1)"
    by (simp add: written_def rd)
  have core: "stack_of js s (ChatKey ctx) (written new) = Some new \<and>
        toState_Go js s S ctx w = BaseState_Render S ctx (written new) \<and>
        (stacks after (ChatKey ctx) = stacks (written new) (ChatKey ctx) \<longrightarrow>
           stack_of js s (ChatKey ctx) after = Some new)"
    if new: "toState_stack old S = new" and rt: "json_roundtrip js (map BaseState_Name new)"
    for new
  proof -
    from rt new old
    have rt': "json_roundtrip js (map BaseState_Name (toState_stack (elems stack) S))"
      by simp
    from toState_Go_commit [OF wf reg rd rt'] new old wr
    have go: "toState_Go js s S ctx w = BaseState_Render S ctx (written new)"
      and rb: "stack_of js s (ChatKey ctx) (written new) = Some new"
      by (simp_all add: stack_of_def)
    from rb stack_of_depends [of after "ChatKey ctx" "written new" js s]
    have "stacks after (ChatKey ctx) = stacks (written new) (ChatKey ctx) \<longrightarrow>
           stack_of js s (ChatKey ctx) after = Some new"
      by simp
    with go rb show ?thesis by simp
  qed
  show ?thesis
  proof (intro conjI impI)
    assume a: "(\<forall>x \<in> set old. BaseState_Name x \<noteq> BaseState_Name S) \<and>
      json_roundtrip js (map BaseState_Name (old @ [S]))"
    then have n: "toState_stack old S = old @ [S]"
      by (simp add: toState_stack_absent)
    from core [OF n] a
    show "stack_of js s (ChatKey ctx) (written (old @ [S])) = Some (old @ [S])"
      and "toState_Go js s S ctx w = BaseState_Render S ctx (written (old @ [S]))"
      by simp_all
    assume "stacks after (ChatKey ctx) = stacks (written (old @ [S])) (ChatKey ctx)"
    with core [OF n] a show "stack_of js s (ChatKey ctx) after = Some (old @ [S])"
      by simp
  next
    assume a: "i < length old \<and> BaseState_Name (old ! i) = BaseState_Name S \<and>
      (\<forall>j < i. BaseState_Name (old ! j) \<noteq> BaseState_Name S) \<and>
      json_roundtrip js (map BaseState_Name (take (Suc i) old))"
    then have n: "toState_stack old S = take (Suc i) old"
      by (simp add: toState_stack_present)
    from core [OF n] a
    show "stack_of js s (ChatKey ctx) (written (take (Suc i) old)) = Some (take (Suc i) old)"
      and "toState_Go js s S ctx w = BaseState_Render S ctx (written (take (Suc i) old))"
      by simp_all
    from a show "length (take (Suc i) old) = i + 1" by simp
    assume "stacks after (ChatKey ctx) = stacks (written (take (Suc i) old)) (ChatKey ctx)"
    with core [OF n] a show "stack_of js s (ChatKey ctx) after = Some (take (Suc i) old)"
      by simp
  qed
qed


lemma ex_stack_of:
  "stack_of ex_json ex_sh ''42'' ex_world = None"
  "stack_of ex_json ex_sh ''42'' (w_blob (names_blob [''main'', ''quiz''])) = Some [st_main', st_quiz]"
  "stack_of ex_json ex_sh ''42'' (w_blob (names_blob [''main''])) = Some [st_main']"
  by (simp_all add: stack_of_def getStack_def memoryStateStore_GetStack_def Is_def w_blob_def
        ex_world_def ex_json_simps ex_Unmarshal_names_blob ex_sh_states)

lemma ex_Render:
  "BaseState_Render st_main' ctx w = (None, w\<lparr>ext := ext w + 1\<rparr>)"
  "BaseState_Render st_quiz ctx w = (Some ErrDataKeyNotFound, w)"
  by (simp_all add: BaseState_Render_def st_main'_def st_main_def st_quiz_def set_Next_def)

theorem toState_Go_push_or_truncate_witness:
  "wf_registry (states ex_sh) \<and> registered ex_sh st_main' \<and>
   elems (stack_of ex_json ex_sh (ChatKey ex_ctx) ex_world) = [] \<and>
   json_roundtrip ex_json
     (map BaseState_Name (elems (stack_of ex_json ex_sh (ChatKey ex_ctx) ex_world) @ [st_main'])) \<and>
   stack_of ex_json ex_sh (ChatKey ex_ctx) (snd (toState_Go ex_json ex_sh st_main' ex_ctx ex_world))
     = Some [st_main'] \<and>
   0 < length (elems (stack_of ex_json ex_sh (ChatKey ex_ctx) (w_blob (names_blob [''main'', ''quiz''])))) \<and>
   BaseState_Name
     (elems (stack_of ex_json ex_sh (ChatKey ex_ctx) (w_blob (names_blob [''main'', ''quiz'']))) ! 0)
     = BaseState_Name st_main' \<and>
   json_roundtrip ex_json
     (map BaseState_Name
        (take (Suc 0)
           (elems (stack_of ex_json ex_sh (ChatKey ex_ctx) (w_blob (names_blob [''main'', ''quiz''])))))) \<and>
   stack_of ex_json ex_sh (ChatKey ex_ctx)
     (snd (toState_Go ex_json ex_sh st_main' ex_ctx (w_blob (names_blob [''main'', ''quiz'']))))
     = Some [st_main']"
proof -
  let ?w = "w_blob (names_blob [''main'', ''quiz''])"
  have a1: "\<forall>x \<in> set (elems (stack_of ex_json ex_sh (ChatKey ex_ctx) ex_world)).
       BaseState_Name x \<noteq> BaseState_Name st_main'"
    by (simp add: ex_ChatKey ex_stack_of elems_def)
  have a2: "json_roundtrip ex_json
     (map BaseState_Name (elems (stack_of ex_json ex_sh (ChatKey ex_ctx) ex_world) @ [st_main']))"
    by (simp add: ex_ChatKey ex_stack_of elems_def ex_names ex_roundtrip)
  have b1: "0 < length (elems (stack_of ex_json ex_sh (ChatKey ex_ctx) ?w))"
    by (simp add: ex_ChatKey ex_stack_of elems_def)
  have b2: "BaseState_Name (elems (stack_of ex_json ex_sh (ChatKey ex_ctx) ?w) ! 0)
     = BaseState_Name st_main'"
    by (simp add: ex_ChatKey ex_stack_of elems_def)
  have b3: "json_roundtrip ex_json
     (map BaseState_Name (take (Suc 0) (elems (stack_of ex_json ex_sh (ChatKey ex_ctx) ?w))))"
    by (simp add: ex_ChatKey ex_stack_of elems_def ex_names ex_roundtrip)
  note t1 = toState_Go_push_or_truncate [OF ex_wf ex_sh_registered(1), of ex_json ex_ctx ex_world 0]
  from t1 a1 a2 have g1: "toState_Go ex_json ex_sh st_main' ex_ctx ex_world =
      BaseState_Render st_main' ex_ctx
        (snd (setStack ex_json ex_sh (ChatKey ex_ctx)
               (elems (stack_of ex_json ex_sh (ChatKey ex_ctx) ex_world) @ [st_main'])
               (snd (getStack ex_json ex_sh (ChatKey ex_ctx) ex_world))))"
    by blast
  have k1: "stacks (snd (toState_Go ex_json ex_sh st_main' ex_ctx ex_world)) (ChatKey ex_ctx) =
      stacks (snd (setStack ex_json ex_sh (ChatKey ex_ctx)
               (elems (stack_of ex_json ex_sh (ChatKey ex_ctx) ex_world) @ [st_main'])
               (snd (getStack ex_json ex_sh (ChatKey ex_ctx) ex_world)))) (ChatKey ex_ctx)"
    by (simp add: g1 ex_Render)
  from t1 a1 a2 k1 have c1: "stack_of ex_json ex_sh (ChatKey ex_ctx)
      (snd (toState_Go ex_json ex_sh st_main' ex_ctx ex_world)) =
      Some (elems (stack_of ex_json ex_sh (ChatKey ex_ctx) ex_world) @ [st_main'])"
    by blast
  note t2 = toState_Go_push_or_truncate [OF ex_wf ex_sh_registered(1), of ex_json ex_ctx ?w 0]
  from t2 b1 b2 b3 have g2: "toState_Go ex_json ex_sh st_main' ex_ctx ?w =
      BaseState_Render st_main' ex_ctx
        (snd (setStack ex_json ex_sh (ChatKey ex_ctx)
               (take (Suc 0) (elems (stack_of ex_json ex_sh (ChatKey ex_ctx) ?w)))
               (snd (getStack ex_json ex_sh (ChatKey ex_ctx) ?w))))"
    by blast
  have k2: "stacks (snd (toState_Go ex_json ex_sh st_main' ex_ctx ?w)) (ChatKey ex_ctx) =
      stacks (snd (setStack ex_json ex_sh (ChatKey ex_ctx)
               (take (Suc 0) (elems (stack_of ex_json ex_sh (ChatKey ex_ctx) ?w)))
               (snd (getStack ex_json ex_sh (ChatKey ex_ctx) ?w)))) (ChatKey ex_ctx)"
    by (simp add: g2 ex_Render)
  from t2 b1 b2 b3 k2 have c2: "stack_of ex_json ex_sh (ChatKey ex_ctx)
      (snd (toState_Go ex_json ex_sh st_main' ex_ctx ?w)) =
      Some (take (Suc 0) (elems (stack_of ex_json ex_sh (ChatKey ex_ctx) ?w)))"
    by blast
  from c1 have c1': "stack_of ex_json ex_sh (ChatKey ex_ctx)
      (snd (toState_Go ex_json ex_sh st_main' ex_ctx ex_world)) = Some [st_main']"
    by (simp add: ex_ChatKey ex_stack_of elems_def)
  from c2 have c2': "stack_of ex_json ex_sh (ChatKey ex_ctx)
      (snd (toState_Go ex_json ex_sh st_main' ex_ctx ?w)) = Some [st_main']"
    by (simp add: ex_ChatKey ex_stack_of elems_def)
  have a0: "elems (stack_of ex_json ex_sh (ChatKey ex_ctx) ex_world) = []"
    by (simp add: ex_ChatKey ex_stack_of elems_def)
  from ex_wf ex_sh_registered(1) a0 a2 b1 b2 b3 c1' c2' show ?thesis by blast
qed

text \<open>
  C6. \<^verbatim>\<open>toState(S).Go\<close> persists the new stack before it calls \<^verbatim>\<open>S.Render\<close>: rendering
  runs in the world in which \<^verbatim>\<open>getStack\<close> already reads the new stack. When rendering
  fails there, \<^verbatim>\<open>Go\<close> returns that error and the world rendering left; nothing is rolled
  back, so the new stack is still what is read as long as rendering left the blob of the
  chat alone.
\<close>

theorem toState_Go_render_failure:
  fixes js :: json and s :: "'x StateHandler" and S :: "'x State" and ctx :: Context
    and w :: "'x world"
  defines "new \<equiv> toState_stack (elems (stack_of js s (ChatKey ctx) w)) S"
  defines "committed \<equiv> snd (setStack js s (ChatKey ctx) new
                                (snd (getStack js s (ChatKey ctx) w)))"
  assumes wf: "wf_registry (states s)" and reg: "registered s S"
      and rt: "json_roundtrip js (map BaseState_Name new)"
      and fail: "BaseState_Render S ctx committed = (Some e, w3)"
  shows "stack_of js s (ChatKey ctx) committed = Some new \<and>
         toState_Go js s S ctx w = (Some e, w3) \<and>
         (stacks w3 (ChatKey ctx) = stacks committed (ChatKey ctx) \<longrightarrow>
            stack_of js s (ChatKey ctx) w3 = Some new)"
proof -
  obtain stack err w1 where rd: "getStack js s (ChatKey ctx) w = ((stack, err), w1)"
    by (metis surj_pair)
  have new: "new = toState_stack (elems stack) S"
    by (simp add: new_def stack_of_getStack [OF rd])
  have com: "committed = snd (setStack js s (ChatKey ctx) (toState_stack (elems stack) S) w1)"
    by (simp add: committed_def new rd)
  from rt new have rt': "json_roundtrip js (map BaseState_Name (toState_stack (elems stack) S))"
    by simp
  from toState_Go_commit [OF wf reg rd rt'] com new
  have go: "toState_Go js s S ctx w = BaseState_Render S ctx committed"
    and rb: "stack_of js s (ChatKey ctx) committed = Some new"
    by (simp_all add: stack_of_def)
  from rb stack_of_depends [of w3 "ChatKey ctx" committed js s]
  have "stacks w3 (ChatKey ctx) = stacks committed (ChatKey ctx) \<longrightarrow>
            stack_of js s (ChatKey ctx) w3 = Some new"
    by simp
  with go rb fail show ?thesis by simp
qed

lemma ex_setStack:
  "setStack ex_json ex_sh ''42'' [st_main', st_quiz] w =
     (None, w\<lparr>stacks := (stacks w)(''42'' \<mapsto> names_blob [''main'', ''quiz''])\<rparr>)"
  "setStack ex_json ex_sh ''42'' [st_main'] w =
     (None, w\<lparr>stacks := (stacks w)(''42'' \<mapsto> names_blob [''main''])\<rparr>)"
  by (simp_all add: setStack_def ex_names ex_sh_states ex_json_simps ex_Marshal_def
        names_blob_def memoryStateStore_SetStack_def)

lemma ex_getStack_world:
  "snd (getStack ex_json ex_sh ''42'' (w_blob (names_blob [''main'']))) = w_blob (names_blob [''main''])"
  "snd (getStack ex_json ex_sh ''42'' (w_blob (names_blob [''main'', ''quiz''])))
     = w_blob (names_blob [''main'', ''quiz''])"
  by (simp_all add: getStack_def memoryStateStore_GetStack_def Is_def w_blob_def
        ex_json_simps ex_Unmarshal_names_blob ex_sh_states)

lemma w_blob_update:
  "(w_blob b)\<lparr>stacks := (stacks (w_blob b))(''42'' \<mapsto> b')\<rparr> = w_blob b'"
  by (simp add: w_blob_def)

lemma ex_toState_stack:
  "toState_stack [st_main'] st_quiz = [st_main', st_quiz]"
  by (simp add: toState_stack_def ex_names)

theorem toState_Go_render_failure_witness:
  "wf_registry (states ex_sh) \<and> registered ex_sh st_quiz \<and>
   json_roundtrip ex_json
     (map BaseState_Name
        (toState_stack (elems (stack_of ex_json ex_sh (ChatKey ex_ctx) (w_blob (names_blob [''main''])))) st_quiz)) \<and>
   BaseState_Render st_quiz ex_ctx
     (snd (setStack ex_json ex_sh (ChatKey ex_ctx)
        (toState_stack (elems (stack_of ex_json ex_sh (ChatKey ex_ctx) (w_blob (names_blob [''main''])))) st_quiz)
        (snd (getStack ex_json ex_sh (ChatKey ex_ctx) (w_blob (names_blob [''main'']))))))
     = (Some ErrDataKeyNotFound, w_blob (names_blob [''main'', ''quiz''])) \<and>
   toState_Go ex_json ex_sh st_quiz ex_ctx (w_blob (names_blob [''main'']))
     = (Some ErrDataKeyNotFound, w_blob (names_blob [''main'', ''quiz''])) \<and>
   stack_of ex_json ex_sh (ChatKey ex_ctx) (w_blob (names_blob [''main'', ''quiz'']))
     = Some [st_main', st_quiz]"
proof -
  let ?w = "w_blob (names_blob [''main''])"
  have new: "toState_stack (elems (stack_of ex_json ex_sh (ChatKey ex_ctx) ?w)) st_quiz
               = [st_main', st_quiz]"
    by (simp add: ex_ChatKey ex_stack_of elems_def ex_toState_stack)
  have rt: "json_roundtrip ex_json
     (map BaseState_Name (toState_stack (elems (stack_of ex_json ex_sh (ChatKey ex_ctx) ?w)) st_quiz))"
    by (simp add: new ex_names ex_roundtrip)
  have fail: "BaseState_Render st_quiz ex_ctx
     (snd (setStack ex_json ex_sh (ChatKey ex_ctx)
        (toState_stack (elems (stack_of ex_json ex_sh (ChatKey ex_ctx) ?w)) st_quiz)
        (snd (getStack ex_json ex_sh (ChatKey ex_ctx) ?w))))
     = (Some ErrDataKeyNotFound, w_blob (names_blob [''main'', ''quiz'']))"
    by (simp add: new [unfolded ex_ChatKey] ex_ChatKey ex_getStack_world ex_setStack ex_Render
          w_blob_update)
  from toState_Go_render_failure [OF ex_wf ex_sh_registered(2) rt fail]
  have "toState_Go ex_json ex_sh st_quiz ex_ctx ?w
          = (Some ErrDataKeyNotFound, w_blob (names_blob [''main'', ''quiz'']))"
    and "stack_of ex_json ex_sh (ChatKey ex_ctx) (w_blob (names_blob [''main'', ''quiz'']))
          = Some [st_main', st_quiz]"
    by (simp_all add: new [unfolded ex_ChatKey] ex_ChatKey ex_getStack_world ex_setStack
          w_blob_update)
  with ex_wf ex_sh_registered(2) rt fail show ?thesis by blast
qed

subsection \<open>Going back\<close>

lemma back_Go_None:
  "getStack js s (ChatKey ctx) w = ((None, err), w1) \<Longrightarrow> back_Go js s ctx w = (None, w1)"
  using getStack_no_error [of js s "ChatKey ctx" w]
  by (simp add: back_Go_def elems_def)

lemma back_Go_Some_registered:
  assumes rd: "getStack js s (ChatKey ctx) w = ((Some st, err), w1)"
      and reg: "\<forall>x \<in> set (butlast st). registered s x"
      and rt: "json_roundtrip js (map BaseState_Name (butlast st))"
  shows "st \<noteq> [] \<and> w1 = w \<and>
         fst (setStack js s (ChatKey ctx) (butlast st) w) = None \<and>
         back_Go js s ctx w =
           (if butlast st = [] then (None, snd (setStack js s (ChatKey ctx) (butlast st) w))
            else BaseState_Render (last (butlast st)) ctx
                   (snd (setStack js s (ChatKey ctx) (butlast st) w)))"
proof -
  from getStack_Some [OF rd] have ne: "st \<noteq> []" and err: "err = None" and w1: "w1 = w"
    by simp_all
  from setStack_then_getStack [OF reg rt, of "ChatKey ctx" w]
  have ok: "fst (setStack js s (ChatKey ctx) (butlast st) w) = None"
    by simp
  define w2 where "w2 = snd (setStack js s (ChatKey ctx) (butlast st) w)"
  from ok have st: "setStack js s (ChatKey ctx) (butlast st) w = (None, w2)"
    by (simp add: w2_def prod_eq_iff)
  have tk: "take (length st - Suc 0) st = butlast st"
    by (simp add: butlast_conv_take)
  have lst: "butlast st \<noteq> [] \<Longrightarrow>
      butlast st ! (length st - Suc (Suc 0)) = last (butlast st)"
    by (simp add: last_conv_nth)
  have bl: "(butlast st = []) = (\<not> Suc 0 < length st)"
    by (cases st rule: rev_cases) auto
  have "back_Go js s ctx w =
           (if butlast st = [] then (None, w2) else BaseState_Render (last (butlast st)) ctx w2)"
    using rd err w1 ne st lst
    by (simp add: back_Go_def elems_def Let_def tk bl)
  from ne w1 ok this [unfolded w2_def] show ?thesis by blast
qed

lemma back_Go_Some:
  assumes rd: "getStack js s (ChatKey ctx) w = ((Some st, err), w1)"
      and wf: "wf_registry (states s)"
      and rt: "json_roundtrip js (map BaseState_Name (butlast st))"
  shows "st \<noteq> [] \<and> w1 = w \<and>
         fst (setStack js s (ChatKey ctx) (butlast st) w) = None \<and>
         back_Go js s ctx w =
           (if butlast st = [] then (None, snd (setStack js s (ChatKey ctx) (butlast st) w))
            else BaseState_Render (last (butlast st)) ctx
                   (snd (setStack js s (ChatKey ctx) (butlast st) w)))"
proof -
  from getStack_Some_registered [OF rd wf] have "\<forall>x \<in> set (butlast st). registered s x"
    by (auto dest: in_set_butlastD)
  from back_Go_Some_registered [OF rd this rt] show ?thesis .
qed


text \<open>
  C3. \<^verbatim>\<open>back.Go\<close> on a chat without a stack (no blob, or one from which nothing is read)
  returns no error, stores nothing and renders nothing: it returns the world as reading
  left it, which is the world it was given when no blob is stored. On a stack \<open>st\<close> it
  persists \<open>st\<close> without its last state and returns what \<^verbatim>\<open>Render\<close> of the new last state
  returns; when \<open>st\<close> has one state, what is read afterwards is the absent stack and the
  result is the world after the write, with no error: nothing is rendered.
\<close>

theorem back_Go_pop:
  fixes js :: json and s :: "'x StateHandler" and ctx :: Context and w :: "'x world"
    and st :: "'x State list"
  defines "w1 \<equiv> snd (getStack js s (ChatKey ctx) w)"
      and "w2 \<equiv> snd (setStack js s (ChatKey ctx) (butlast st) w)"
  shows
    "(stack_of js s (ChatKey ctx) w = None \<longrightarrow>
        back_Go js s ctx w = (None, w1) \<and> stacks w1 = stacks w \<and> ext w1 = ext w \<and>
        (stacks w (ChatKey ctx) = None \<longrightarrow> w1 = w))
     \<and>
     (stack_of js s (ChatKey ctx) w = Some st \<and> wf_registry (states s) \<and>
      json_roundtrip js (map BaseState_Name (butlast st)) \<longrightarrow>
        st \<noteq> [] \<and>
        stack_of js s (ChatKey ctx) w2 = (if butlast st = [] then None else Some (butlast st)) \<and>
        logs w2 = logs w \<and> ext w2 = ext w \<and>
        back_Go js s ctx w =
          (if butlast st = [] then (None, w2)
           else BaseState_Render (last (butlast st)) ctx w2))"
proof (intro conjI impI)
  obtain stack err w' where rd: "getStack js s (ChatKey ctx) w = ((stack, err), w')"
    by (metis surj_pair)
  have w': "w' = w1" by (simp add: w1_def rd)
  {
    assume "stack_of js s (ChatKey ctx) w = None"
    with rd have rdn: "getStack js s (ChatKey ctx) w = ((None, err), w1)"
      by (simp add: stack_of_def w')
    then show "back_Go js s ctx w = (None, w1)"
      by (rule back_Go_None)
    from getStack_keeps [of js s "ChatKey ctx" w]
    show "stacks w1 = stacks w" and "ext w1 = ext w"
      by (simp_all add: w1_def)
    assume "stacks w (ChatKey ctx) = None"
    then show "w1 = w"
      by (simp add: w1_def getStack_def memoryStateStore_GetStack_def Is_def)
  }
  assume a: "stack_of js s (ChatKey ctx) w = Some st \<and> wf_registry (states s) \<and>
      json_roundtrip js (map BaseState_Name (butlast st))"
  with rd have rds: "getStack js s (ChatKey ctx) w = ((Some st, err), w')"
    by (simp add: stack_of_def)
  from a have wf: "wf_registry (states s)"
    and rt: "json_roundtrip js (map BaseState_Name (butlast st))"
    by simp_all
  note bs = back_Go_Some [OF rds wf rt]
  from bs show "st \<noteq> []" by simp
  from bs show "back_Go js s ctx w =
          (if butlast st = [] then (None, w2)
           else BaseState_Render (last (butlast st)) ctx w2)"
    unfolding w2_def by blast
  from getStack_Some_registered [OF rds wf]
  have "\<forall>x \<in> set (butlast st). registered s x"
    by (auto dest: in_set_butlastD)
  from setStack_then_getStack [OF this rt, of "ChatKey ctx" w]
  show "stack_of js s (ChatKey ctx) w2 = (if butlast st = [] then None else Some (butlast st))"
    and "logs w2 = logs w" and "ext w2 = ext w"
    by (simp_all add: w2_def stack_of_def)
qed


lemma ex_setStack_nil:
  "setStack ex_json ex_sh ''42'' [] w =
     (None, w\<lparr>stacks := (stacks w)(''42'' \<mapsto> names_blob [])\<rparr>)"
  by (simp add: setStack_def ex_json_simps ex_Marshal_def names_blob_def
        memoryStateStore_SetStack_def)

lemma ex_stack_of_nil:
  "stack_of ex_json ex_sh ''42'' (w_blob (names_blob [])) = None"
  by (simp add: stack_of_def getStack_def memoryStateStore_GetStack_def Is_def w_blob_def
        ex_json_simps names_blob_def ex_Marshal_def ex_Unmarshal_def)

theorem back_Go_pop_witness:
  "(stack_of ex_json ex_sh (ChatKey ex_ctx) ex_world = None \<and>
    stacks ex_world (ChatKey ex_ctx) = None \<and>
    back_Go ex_json ex_sh ex_ctx ex_world = (None, ex_world)) \<and>
   (stack_of ex_json ex_sh (ChatKey ex_ctx) (w_blob (names_blob [''main'', ''quiz'']))
      = Some [st_main', st_quiz] \<and>
    wf_registry (states ex_sh) \<and>
    json_roundtrip ex_json (map BaseState_Name (butlast [st_main', st_quiz])) \<and>
    back_Go ex_json ex_sh ex_ctx (w_blob (names_blob [''main'', ''quiz''])) =
      (None, (w_blob (names_blob [''main'']))\<lparr>ext := 1\<rparr>) \<and>
    stack_of ex_json ex_sh (ChatKey ex_ctx) (w_blob (names_blob [''main''])) = Some [st_main']) \<and>
   (stack_of ex_json ex_sh (ChatKey ex_ctx) (w_blob (names_blob [''main''])) = Some [st_main'] \<and>
    json_roundtrip ex_json (map BaseState_Name (butlast [st_main'])) \<and>
    back_Go ex_json ex_sh ex_ctx (w_blob (names_blob [''main''])) = (None, w_blob (names_blob [])) \<and>
    stack_of ex_json ex_sh (ChatKey ex_ctx) (w_blob (names_blob [])) = None)"
proof -
  have a1: "stack_of ex_json ex_sh (ChatKey ex_ctx) ex_world = None"
    by (simp add: ex_ChatKey ex_stack_of)
  have a2: "stacks ex_world (ChatKey ex_ctx) = None"
    by (simp add: ex_world_def)
  from back_Go_pop [of ex_json ex_sh ex_ctx ex_world] a1 a2
  have c1: "back_Go ex_json ex_sh ex_ctx ex_world = (None, ex_world)"
    by simp
  have b1: "stack_of ex_json ex_sh (ChatKey ex_ctx) (w_blob (names_blob [''main'', ''quiz'']))
      = Some [st_main', st_quiz]"
    by (simp add: ex_ChatKey ex_stack_of)
  have b2: "json_roundtrip ex_json (map BaseState_Name (butlast [st_main', st_quiz]))"
    by (simp add: ex_names ex_roundtrip)
  from back_Go_pop [of ex_json ex_sh ex_ctx "w_blob (names_blob [''main'', ''quiz''])"
        "[st_main', st_quiz]"] b1 ex_wf b2
  have c2: "back_Go ex_json ex_sh ex_ctx (w_blob (names_blob [''main'', ''quiz''])) =
      (None, (w_blob (names_blob [''main'']))\<lparr>ext := 1\<rparr>)"
    and c2': "stack_of ex_json ex_sh (ChatKey ex_ctx) (w_blob (names_blob [''main''])) = Some [st_main']"
    by (simp_all add: ex_ChatKey ex_setStack w_blob_update ex_Render) (simp add: w_blob_def)
  have d1: "stack_of ex_json ex_sh (ChatKey ex_ctx) (w_blob (names_blob [''main''])) = Some [st_main']"
    by (simp add: ex_ChatKey ex_stack_of)
  have d2: "json_roundtrip ex_json (map BaseState_Name (butlast [st_main']))"
    by (simp add: ex_roundtrip)
  from back_Go_pop [of ex_json ex_sh ex_ctx "w_blob (names_blob [''main''])" "[st_main']"]
    d1 ex_wf d2
  have c3: "back_Go ex_json ex_sh ex_ctx (w_blob (names_blob [''main''])) =
      (None, w_blob (names_blob []))"
    and c3': "stack_of ex_json ex_sh (ChatKey ex_ctx) (w_blob (names_blob [])) = None"
    by (simp_all add: ex_ChatKey ex_setStack_nil w_blob_update)
  from a1 a2 c1 b1 ex_wf b2 c2 c2' d1 d2 c3 c3' show ?thesis by blast
qed

subsection \<open>The data store\<close>

lemma stored_SetData:
  "stored (snd (SetData m c k v)) chatKey key =
     (if c = chatKey \<and> k = key then Some v else stored m chatKey key)"
  by (auto simp: stored_def SetData_def LoadOrStore_chat_def split: option.splits)

lemma stored_RemoveData:
  "stored (snd (RemoveData m c k)) chatKey key =
     (if c = chatKey \<and> k = key then None else stored m chatKey key)"
  by (auto simp: stored_def RemoveData_def LoadOrStore_chat_def split: option.splits)

lemma stored_ClearData:
  "stored (snd (ClearData m c)) chatKey key = (if c = chatKey then None else stored m chatKey key)"
  by (simp add: stored_def ClearData_def)

lemma stored_apply_op:
  "stored (apply_op m op) chatKey key = track chatKey key (stored m chatKey key) op"
  by (cases op) (simp_all add: stored_SetData stored_RemoveData stored_ClearData)

lemma stored_foldl:
  "stored (foldl apply_op m ops) chatKey key = foldl (track chatKey key) (stored m chatKey key) ops"
  by (induction ops arbitrary: m) (simp_all add: stored_apply_op)

lemma stored_run_ops:
  "stored (run_ops ops) chatKey key = last_set ops chatKey key"
proof -
  have "stored (NewInMemoryDataStore :: 'a memoryStore) chatKey key = None"
    by (simp add: stored_def NewInMemoryDataStore_def)
  then show ?thesis
    by (simp add: run_ops_def last_set_def stored_foldl)
qed

lemma GetData_stored:
  "GetData A m chatKey key (T, cur) =
     (case stored m chatKey key of
        None \<Rightarrow> Returned (cur, Some ErrDataKeyNotFound)
      | Some nil_any \<Rightarrow> Panicked ''reflect: call of reflect.Value.Type on zero Value''
      | Some (Dyn t x) \<Rightarrow>
          if A t T then Returned (Dyn t x, None)
          else Returned (cur, Some (ErrorString (''stored value of type '' @ t @
                                                 '' is not assignable to type '' @ T))))"
  by (simp add: GetData_def stored_def split: option.splits any.splits)

lemma nabot_Get_stored:
  "nabot_Get A zero c (T, key) m =
     (case stored m (ChatKey c) key of
        None \<Rightarrow> Returned (zero, Some ErrDataKeyNotFound)
      | Some nil_any \<Rightarrow> Panicked ''reflect: call of reflect.Value.Type on zero Value''
      | Some (Dyn t x) \<Rightarrow>
          if A t T then Returned (Dyn t x, None)
          else Returned (zero, Some (WrapError ''failed to get data''
                  (ErrorString (''stored value of type '' @ t @
                                '' is not assignable to type '' @ T)))))"
  by (simp add: nabot_Get_def GetData_stored split: option.splits any.splits)


lemma stored_nabot_Set:
  "stored (snd (nabot_Set c (T, key) v m)) (ChatKey c) key = Some v"
  by (simp add: nabot_Set_def SetData_def LoadOrStore_chat_def stored_def split: option.splits)

lemma stored_nabot_Clear:
  "stored (snd (nabot_Clear c m)) (ChatKey c) key = None"
  by (simp add: nabot_Clear_def ClearData_def stored_def)

text \<open>
  The life of a key, for stored values that have a dynamic type. On a store that went
  through any history of \<^verbatim>\<open>Set\<close>, \<^verbatim>\<open>Remove\<close> and \<^verbatim>\<open>Clear\<close> calls, \<^verbatim>\<open>Get\<close> returns
  \<^verbatim>\<open>ErrDataKeyNotFound\<close> for a key of a chat that was never set, or was removed or cleared
  after its last \<^verbatim>\<open>Set\<close>, and returns the value of the last \<^verbatim>\<open>Set\<close> otherwise, when the
  type of that value is assignable to the type asked for. On any store, \<^verbatim>\<open>Get\<close> after
  \<^verbatim>\<open>Remove\<close> of the key or after \<^verbatim>\<open>Clear\<close> of the chat returns \<^verbatim>\<open>ErrDataKeyNotFound\<close>.
\<close>

theorem data_key_lifecycle:
  "(last_set ops (ChatKey c) key = None \<longrightarrow>
      GetData A (run_ops ops) (ChatKey c) key (T, cur) = Returned (cur, Some ErrDataKeyNotFound) \<and>
      nabot_Get A zero c (T, key) (run_ops ops) = Returned (zero, Some ErrDataKeyNotFound)) \<and>
   (last_set ops (ChatKey c) key = Some (Dyn t x) \<and> A t T \<longrightarrow>
      GetData A (run_ops ops) (ChatKey c) key (T, cur) = Returned (Dyn t x, None) \<and>
      nabot_Get A zero c (T, key) (run_ops ops) = Returned (Dyn t x, None)) \<and>
   (A t T \<longrightarrow>
      GetData A (snd (SetData m (ChatKey c) key (Dyn t x))) (ChatKey c) key (T, cur)
        = Returned (Dyn t x, None) \<and>
      nabot_Get A zero c (T, key) (snd (nabot_Set c (T, key) (Dyn t x) m))
        = Returned (Dyn t x, None)) \<and>
   GetData A (snd (RemoveData m (ChatKey c) key)) (ChatKey c) key (T, cur)
     = Returned (cur, Some ErrDataKeyNotFound) \<and>
   GetData A (snd (ClearData m (ChatKey c))) (ChatKey c) key (T, cur)
     = Returned (cur, Some ErrDataKeyNotFound) \<and>
   nabot_Get A zero c (T, key) (snd (nabot_Clear c m)) = Returned (zero, Some ErrDataKeyNotFound)"
proof (intro conjI impI)
  assume "last_set ops (ChatKey c) key = None"
  then have "stored (run_ops ops) (ChatKey c) key = None"
    by (simp add: stored_run_ops)
  then show "GetData A (run_ops ops) (ChatKey c) key (T, cur)
               = Returned (cur, Some ErrDataKeyNotFound)"
    and "nabot_Get A zero c (T, key) (run_ops ops) = Returned (zero, Some ErrDataKeyNotFound)"
    by (simp_all add: GetData_stored nabot_Get_stored)
next
  assume a: "last_set ops (ChatKey c) key = Some (Dyn t x) \<and> A t T"
  then have "stored (run_ops ops) (ChatKey c) key = Some (Dyn t x)"
    by (simp add: stored_run_ops)
  with a show "GetData A (run_ops ops) (ChatKey c) key (T, cur) = Returned (Dyn t x, None)"
    and "nabot_Get A zero c (T, key) (run_ops ops) = Returned (Dyn t x, None)"
    by (simp_all add: GetData_stored nabot_Get_stored)
next
  assume a: "A t T"
  then show "GetData A (snd (SetData m (ChatKey c) key (Dyn t x))) (ChatKey c) key (T, cur)
        = Returned (Dyn t x, None)"
    by (simp add: GetData_stored stored_SetData)
  from a show "nabot_Get A zero c (T, key) (snd (nabot_Set c (T, key) (Dyn t x) m))
        = Returned (Dyn t x, None)"
    by (simp add: nabot_Get_stored stored_nabot_Set)
next
  show "GetData A (snd (RemoveData m (ChatKey c) key)) (ChatKey c) key (T, cur)
     = Returned (cur, Some ErrDataKeyNotFound)"
    by (simp add: GetData_stored stored_RemoveData)
  show "GetData A (snd (ClearData m (ChatKey c))) (ChatKey c) key (T, cur)
     = Returned (cur, Some ErrDataKeyNotFound)"
    by (simp add: GetData_stored stored_ClearData)
  show "nabot_Get A zero c (T, key) (snd (nabot_Clear c m))
     = Returned (zero, Some ErrDataKeyNotFound)"
    by (simp add: nabot_Get_stored stored_nabot_Clear)
qed

lemma ex_last_set:
  "last_set ex_ops ''42'' ''answered'' = None"
  "last_set ex_ops ''42'' ''category'' = Some (Dyn ''string'' ''math'')"
  "last_set ex_ops ''42'' ''never'' = None"
  by (simp_all add: last_set_def ex_ops_def)

theorem data_key_lifecycle_witness:
  "(last_set ex_ops (ChatKey ex_ctx) ''answered'' = None \<and>
    nabot_Get ex_AssignableTo (Dyn ''int'' ''0'') ex_ctx (''int'', ''answered'') (run_ops ex_ops)
      = Returned (Dyn ''int'' ''0'', Some ErrDataKeyNotFound)) \<and>
   (last_set ex_ops (ChatKey ex_ctx) ''category'' = Some (Dyn ''string'' ''math'') \<and>
    ex_AssignableTo ''string'' ''string'' \<and>
    nabot_Get ex_AssignableTo (Dyn ''string'' []) ex_ctx (''string'', ''category'') (run_ops ex_ops)
      = Returned (Dyn ''string'' ''math'', None)) \<and>
   nabot_Get ex_AssignableTo (Dyn ''string'' []) ex_ctx (''string'', ''category'')
      (snd (nabot_Clear ex_ctx (run_ops ex_ops)))
      = Returned (Dyn ''string'' [], Some ErrDataKeyNotFound)"
proof -
  have a: "last_set ex_ops (ChatKey ex_ctx) ''answered'' = None"
    by (simp add: ex_ChatKey ex_last_set)
  have b: "last_set ex_ops (ChatKey ex_ctx) ''category'' = Some (Dyn ''string'' ''math'')"
    by (simp add: ex_ChatKey ex_last_set)
  have c: "ex_AssignableTo ''string'' ''string''"
    by (simp add: ex_AssignableTo_def)
  from data_key_lifecycle [of ex_ops ex_ctx "''answered''" ex_AssignableTo "''int''" _
      "Dyn ''int'' ''0''"] a
  have r1: "nabot_Get ex_AssignableTo (Dyn ''int'' ''0'') ex_ctx (''int'', ''answered'')
              (run_ops ex_ops) = Returned (Dyn ''int'' ''0'', Some ErrDataKeyNotFound)"
    by blast
  from data_key_lifecycle [of ex_ops ex_ctx "''category''" ex_AssignableTo "''string''" _
      "Dyn ''string'' []" "''string''" "''math''"] b c
  have r2: "nabot_Get ex_AssignableTo (Dyn ''string'' []) ex_ctx (''string'', ''category'')
              (run_ops ex_ops) = Returned (Dyn ''string'' ''math'', None)"
    by blast
  from data_key_lifecycle [of _ ex_ctx "''category''" ex_AssignableTo "''string''" _
      "Dyn ''string'' []" _ _ "run_ops ex_ops"]
  have r3: "nabot_Get ex_AssignableTo (Dyn ''string'' []) ex_ctx (''string'', ''category'')
      (snd (nabot_Clear ex_ctx (run_ops ex_ops)))
      = Returned (Dyn ''string'' [], Some ErrDataKeyNotFound)"
    by blast
  from a b c r1 r2 r3 show ?thesis by blast
qed

lemma Get_after_Set_nil:
  "GetData A (snd (SetData m chatKey key nil_any)) chatKey key (T, cur) =
     Panicked ''reflect: call of reflect.Value.Type on zero Value''"
  "nabot_Get A zero c (T, key) (snd (nabot_Set c (T, key) nil_any m)) =
     Panicked ''reflect: call of reflect.Value.Type on zero Value''"
  by (simp_all add: GetData_stored nabot_Get_stored stored_SetData stored_nabot_Set)

text \<open>
  C7. The life of a key breaks at the nil interface value. \<^verbatim>\<open>Set\<close> with a key of type
  \<^verbatim>\<open>any\<close> stores nil; \<^verbatim>\<open>Get\<close> with the same key, whose type is assignable to itself, then
  does not return the stored value: \<^verbatim>\<open>reflect.ValueOf\<close> of nil is the zero \<^verbatim>\<open>Value\<close>, and
  \<^verbatim>\<open>GetData\<close> calls \<^verbatim>\<open>Type()\<close> on it without a test, which panics.
\<close>

theorem Set_nil_then_Get_panics:
  "nabot_Set ex_ctx (''interface {}'', ''answer'') (nil_any :: string any) NewInMemoryDataStore =
     (None, [''42'' \<mapsto> [''answer'' \<mapsto> nil_any]]) \<and>
   ex_AssignableTo ''interface {}'' ''interface {}'' \<and>
   nabot_Get ex_AssignableTo (nil_any :: string any) ex_ctx (''interface {}'', ''answer'')
     (snd (nabot_Set ex_ctx (''interface {}'', ''answer'') nil_any NewInMemoryDataStore)) =
     Panicked ''reflect: call of reflect.Value.Type on zero Value'' \<and>
   nabot_Get ex_AssignableTo (nil_any :: string any) ex_ctx (''interface {}'', ''answer'')
     (snd (nabot_Set ex_ctx (''interface {}'', ''answer'') nil_any NewInMemoryDataStore)) \<noteq>
     Returned (nil_any, None)"
  by (simp add: nabot_Set_def SetData_def LoadOrStore_chat_def NewInMemoryDataStore_def
        ex_ChatKey ex_AssignableTo_def nabot_Get_def GetData_def)

text \<open>
  C8. When the value stored under the key has a type that is not assignable to the type
  asked for, \<^verbatim>\<open>GetData\<close> returns an error and leaves the target as it was; the error is
  not \<^verbatim>\<open>ErrDataKeyNotFound\<close> and does not wrap it, and \<^verbatim>\<open>Get\<close> returns it wrapped, still
  distinct from \<^verbatim>\<open>ErrDataKeyNotFound\<close> for \<^verbatim>\<open>errors.Is\<close>.
\<close>

theorem GetData_type_mismatch:
  assumes "stored m (ChatKey c) key = Some (Dyn t x)" and "\<not> A t T"
  shows "\<exists>e. GetData A m (ChatKey c) key (T, cur) = Returned (cur, Some e) \<and>
             e \<noteq> ErrDataKeyNotFound \<and> \<not> errors_Is e ErrDataKeyNotFound \<and>
             nabot_Get A zero c (T, key) m =
               Returned (zero, Some (WrapError ''failed to get data'' e)) \<and>
             \<not> errors_Is (WrapError ''failed to get data'' e) ErrDataKeyNotFound"
  using assms by (simp add: GetData_stored nabot_Get_stored)

theorem GetData_type_mismatch_witness:
  "stored (run_ops ex_ops) (ChatKey ex_ctx) ''category'' = Some (Dyn ''string'' ''math'') \<and>
   \<not> ex_AssignableTo ''string'' ''int'' \<and>
   (\<exists>e. GetData ex_AssignableTo (run_ops ex_ops) (ChatKey ex_ctx) ''category''
          (''int'', Dyn ''int'' ''0'') = Returned (Dyn ''int'' ''0'', Some e) \<and>
        e \<noteq> ErrDataKeyNotFound \<and> \<not> errors_Is e ErrDataKeyNotFound \<and>
        nabot_Get ex_AssignableTo (Dyn ''int'' ''0'') ex_ctx (''int'', ''category'') (run_ops ex_ops)
          = Returned (Dyn ''int'' ''0'', Some (WrapError ''failed to get data'' e)) \<and>
        \<not> errors_Is (WrapError ''failed to get data'' e) ErrDataKeyNotFound)"
proof -
  have a: "stored (run_ops ex_ops) (ChatKey ex_ctx) ''category'' = Some (Dyn ''string'' ''math'')"
    by (simp add: stored_run_ops ex_ChatKey ex_last_set)
  have b: "\<not> ex_AssignableTo ''string'' ''int''"
    by (simp add: ex_AssignableTo_def)
  from GetData_type_mismatch [where A = ex_AssignableTo and T = "''int''"
      and cur = "Dyn ''int'' ''0''" and zero = "Dyn ''int'' ''0''", OF a b] a b
  show ?thesis by blast
qed

subsection \<open>Registration of a chain\<close>

lemma RegisterState_new:
  "states s (ID x) = None \<Longrightarrow>
   RegisterState s (Some x) = Returned (toState x, s\<lparr>states := (states s)(ID x \<mapsto> x)\<rparr>)"
  by (simp add: RegisterState_def BaseState_Name_def)

lemma RegisterState_wf:
  "wf_registry (states s) \<Longrightarrow> RegisterState s (Some x) = Returned (t, s') \<Longrightarrow>
   wf_registry (states s')"
  by (auto simp: RegisterState_def wf_registry_def split: if_splits)

lemma set_Next_sel:
  "ID (set_Next x t) = ID x" "Renderer (set_Next x t) = Renderer x"
  "Handlers (set_Next x t) = Handlers x" "ToNext (set_Next x t) = Some t"
  by (simp_all add: set_Next_def)

lemma loop_chain:
  assumes "distinct (map ID ss)" and "\<forall>x \<in> set ss. states s (ID x) = None"
  shows "\<exists>s' ss'.
           RegisterAndChainStates_loop s (map Some ss) =
             Returned (if ss = [] then None else Some (toState (hd ss')), s', map Some ss') \<and>
           map ID ss' = map ID ss \<and> map Renderer ss' = map Renderer ss \<and>
           map Handlers ss' = map Handlers ss \<and>
           (ss \<noteq> [] \<longrightarrow>
              map ToNext ss' = map (\<lambda>x. Some (toState x)) (tl ss') @ [ToNext (last ss)]) \<and>
           states s' = states s ++ map_of (entries ss') \<and>
           app_logger s' = app_logger s"
  using assms
proof (induction ss)
  case Nil
  then show ?case by (simp add: entries_def)
next
  case (Cons x xs)
  from Cons.prems have dx: "ID x \<notin> set (map ID xs)" and d: "distinct (map ID xs)"
    and fx: "states s (ID x) = None" and f: "\<forall>y \<in> set xs. states s (ID y) = None"
    by simp_all
  from Cons.IH [OF d f] obtain s1 xs' where
    run: "RegisterAndChainStates_loop s (map Some xs) =
            Returned (if xs = [] then None else Some (toState (hd xs')), s1, map Some xs')"
    and ids: "map ID xs' = map ID xs" and rs: "map Renderer xs' = map Renderer xs"
    and hs: "map Handlers xs' = map Handlers xs"
    and nx: "xs \<noteq> [] \<longrightarrow>
              map ToNext xs' = map (\<lambda>x. Some (toState x)) (tl xs') @ [ToNext (last xs)]"
    and reg: "states s1 = states s ++ map_of (entries xs')"
    and lg: "app_logger s1 = app_logger s"
    by blast
  from ids have len: "length xs' = length xs" by (metis length_map)
  define x' where "x' = (if xs = [] then x else set_Next x (toState (hd xs')))"
  have idx: "ID x' = ID x" and rx: "Renderer x' = Renderer x" and hx: "Handlers x' = Handlers x"
    by (simp_all add: x'_def set_Next_sel)
  have "map_of (entries xs') (ID x) = None"
    using dx ids by (simp add: map_of_eq_None_iff entries_def image_image) (metis list.set_map)
  with fx reg have free: "states s1 (ID x') = None"
    by (simp add: idx map_add_def)
  have step: "RegisterAndChainStates_loop s (map Some (x # xs)) =
                Returned (Some (toState x'), s1\<lparr>states := (states s1)(ID x' \<mapsto> x')\<rparr>,
                          map Some (x' # xs'))"
    using run RegisterState_new [OF free] by (cases "xs = []") (simp_all add: x'_def)
  have next': "map ToNext (x' # xs') =
                 map (\<lambda>x. Some (toState x)) (tl (x' # xs')) @ [ToNext (last (x # xs))]"
  proof (cases "xs = []")
    case True
    with len show ?thesis by (simp add: x'_def)
  next
    case False
    with len have ne: "xs' \<noteq> []" by auto
    then have "map (\<lambda>x. Some (toState x)) xs' =
                 Some (toState (hd xs')) # map (\<lambda>x. Some (toState x)) (tl xs')"
      by (cases xs') simp_all
    with False nx show ?thesis by (simp add: x'_def set_Next_sel)
  qed
  have reg': "states (s1\<lparr>states := (states s1)(ID x' \<mapsto> x')\<rparr>) =
                states s ++ map_of (entries (x' # xs'))"
    by (simp add: reg entries_def)
  from step ids rs hs idx rx hx next' reg' lg show ?case
    by (intro exI [of _ "s1\<lparr>states := (states s1)(ID x' \<mapsto> x')\<rparr>"] exI [of _ "x' # xs'"])
       simp
qed


lemma map_of_entries:
  "distinct (map ID ss) \<Longrightarrow> x \<in> set ss \<Longrightarrow> map_of (entries ss) (ID x) = Some x"
proof (induction ss)
  case Nil
  then show ?case by simp
next
  case (Cons a ss)
  show ?case
  proof (cases "x = a")
    case True
    then show ?thesis by (simp add: entries_def)
  next
    case False
    with Cons.prems have xs: "x \<in> set ss" and d: "distinct (map ID ss)"
      and "ID a \<notin> ID ` set ss"
      by auto
    then have "ID x \<noteq> ID a" by (metis image_eqI)
    with Cons.IH [OF d xs] show ?thesis by (simp add: entries_def)
  qed
qed

lemma map_of_entries_name:
  "map_of (entries ss) n = Some x \<Longrightarrow> ID x = n"
  by (induction ss) (auto simp: entries_def split: if_splits)

text \<open>
  C9. \<^verbatim>\<open>RegisterAndChainStates\<close> on a non-empty list of states with distinct names, none
  of them registered yet, returns a transition to the first state. It leaves the names,
  renderers and handlers of the states as they were; the next transition of every state
  but the last is the transition to the state that follows it, and the next transition
  of the last state is the one the caller gave it. The registry is the old one with each
  state under its name. With two states, \<open>main\<close> and \<open>quiz\<close>, where the caller gave \<open>quiz\<close>
  the transition \<open>Back\<close>: from the stack \<open>[main, quiz]\<close> that transition persists the
  stack \<open>[main]\<close> and returns what \<^verbatim>\<open>Render\<close> of \<open>main\<close> returns.
\<close>

theorem RegisterAndChainStates_chain:
  assumes ne: "ss \<noteq> []"
      and dist: "distinct (map ID ss)"
      and fresh: "\<forall>x \<in> set ss. states s (ID x) = None"
  shows "\<exists>s' ss'.
           RegisterAndChainStates s (map Some ss) =
             Returned (Some (toState (hd ss')), s', map Some ss') \<and>
           map ID ss' = map ID ss \<and> map Renderer ss' = map Renderer ss \<and>
           map Handlers ss' = map Handlers ss \<and>
           map BaseState_Next ss' =
             map (\<lambda>x. Some (toState x)) (tl ss') @ [BaseState_Next (last ss)] \<and>
           states s' = states s ++ map_of (entries ss') \<and>
           (\<forall>x \<in> set ss'. registered s' x) \<and>
           (wf_registry (states s) \<longrightarrow> wf_registry (states s')) \<and>
           (\<forall>js ctx w m q.
              ss' = [m, q] \<and> BaseState_Next q = Some Back \<and>
              stack_of js s' (ChatKey ctx) w = Some [m, q] \<and>
              json_roundtrip js [BaseState_Name m] \<longrightarrow>
                Transition_Go js s' Back ctx w =
                  BaseState_Render m ctx (snd (setStack js s' (ChatKey ctx) [m] w)) \<and>
                stack_of js s' (ChatKey ctx) (snd (setStack js s' (ChatKey ctx) [m] w)) = Some [m])"
proof -
  from loop_chain [OF dist fresh] ne obtain s' ss' where
    run: "RegisterAndChainStates_loop s (map Some ss) =
            Returned (Some (toState (hd ss')), s', map Some ss')"
    and ids: "map ID ss' = map ID ss" and rs: "map Renderer ss' = map Renderer ss"
    and hs: "map Handlers ss' = map Handlers ss"
    and nx: "map ToNext ss' = map (\<lambda>x. Some (toState x)) (tl ss') @ [ToNext (last ss)]"
    and reg: "states s' = states s ++ map_of (entries ss')"
    by auto
  from run ne have r: "RegisterAndChainStates s (map Some ss) =
             Returned (Some (toState (hd ss')), s', map Some ss')"
    by (simp add: RegisterAndChainStates_def)
  have nxt: "map BaseState_Next ss' =
             map (\<lambda>x. Some (toState x)) (tl ss') @ [BaseState_Next (last ss)]"
    using nx by (simp add: BaseState_Next_def [abs_def])
  from dist ids have dist': "distinct (map ID ss')" by simp
  have regd: "\<forall>x \<in> set ss'. registered s' x"
    by (simp add: registered_def BaseState_Name_def reg map_add_def map_of_entries [OF dist'])
  have wf: "wf_registry (states s) \<longrightarrow> wf_registry (states s')"
    by (auto simp: wf_registry_def reg map_add_def BaseState_Name_def
             split: option.splits dest: map_of_entries_name)
  have scen: "Transition_Go js s' Back ctx w =
                  BaseState_Render m ctx (snd (setStack js s' (ChatKey ctx) [m] w)) \<and>
                stack_of js s' (ChatKey ctx) (snd (setStack js s' (ChatKey ctx) [m] w)) = Some [m]"
    if a: "ss' = [m, q] \<and> BaseState_Next q = Some Back \<and>
              stack_of js s' (ChatKey ctx) w = Some [m, q] \<and>
              json_roundtrip js [BaseState_Name m]"
    for js ctx w m q
  proof -
    obtain err w1 where rd: "getStack js s' (ChatKey ctx) w = ((Some [m, q], err), w1)"
      using a by (cases "getStack js s' (ChatKey ctx) w") (auto simp: stack_of_def)
    from a regd have rm: "\<forall>x \<in> set (butlast [m, q]). registered s' x" by simp
    from a have rt: "json_roundtrip js (map BaseState_Name (butlast [m, q]))" by simp
    from back_Go_Some_registered [OF rd rm rt]
    have go: "back_Go js s' ctx w =
                BaseState_Render m ctx (snd (setStack js s' (ChatKey ctx) [m] w))"
      by simp
    from a regd have rm': "\<forall>x \<in> set [m]. registered s' x" by simp
    from a have rt': "json_roundtrip js (map BaseState_Name [m])" by simp
    from setStack_then_getStack [OF rm' rt', of "ChatKey ctx" w]
    have "stack_of js s' (ChatKey ctx) (snd (setStack js s' (ChatKey ctx) [m] w)) = Some [m]"
      by (simp add: stack_of_def)
    with go show ?thesis by (simp add: Transition_Go_def)
  qed
  from r ids rs hs nxt reg regd wf scen show ?thesis by blast
qed


lemma ex_RegisterAndChainStates:
  "RegisterAndChainStates (NewStateHandler (ex_app [])) (map Some [st_main, st_quiz]) =
     Returned (Some (toState st_main'), ex_sh, map Some [st_main', st_quiz])"
proof -
  have "(Map.empty(''quiz'' \<mapsto> st_quiz))(''main'' \<mapsto> st_main') =
        [''main'' \<mapsto> st_main', ''quiz'' \<mapsto> st_quiz]"
    by (rule ext) simp
  then show ?thesis
    by (simp add: RegisterAndChainStates_def RegisterState_def NewStateHandler_def ex_app_def
          BaseState_Name_def st_main'_def [symmetric] ex_sh_def)
       (simp add: st_main_def st_quiz_def st_main'_def set_Next_def)
qed

theorem RegisterAndChainStates_chain_witness:
  "[st_main, st_quiz] \<noteq> [] \<and> distinct (map ID [st_main, st_quiz]) \<and>
   states (NewStateHandler (ex_app [])) (ID st_main) = None \<and>
   states (NewStateHandler (ex_app [])) (ID st_quiz) = None \<and>
   RegisterAndChainStates (NewStateHandler (ex_app [])) (map Some [st_main, st_quiz]) =
     Returned (Some (toState st_main'), ex_sh, map Some [st_main', st_quiz]) \<and>
   BaseState_Next st_main' = Some (toState st_quiz) \<and>
   BaseState_Next st_quiz = Some Back \<and>
   stack_of ex_json ex_sh (ChatKey ex_ctx) (w_blob (names_blob [''main'', ''quiz'']))
     = Some [st_main', st_quiz] \<and>
   json_roundtrip ex_json [BaseState_Name st_main'] \<and>
   Transition_Go ex_json ex_sh Back ex_ctx (w_blob (names_blob [''main'', ''quiz''])) =
     (None, (w_blob (names_blob [''main'']))\<lparr>ext := 1\<rparr>) \<and>
   stack_of ex_json ex_sh (ChatKey ex_ctx) (w_blob (names_blob [''main''])) = Some [st_main']"
proof -
  have h1: "[st_main, st_quiz] \<noteq> []" by simp
  have h2: "distinct (map ID [st_main, st_quiz])"
    by (simp add: st_main_def st_quiz_def)
  have h3: "\<forall>x \<in> set [st_main, st_quiz]. states (NewStateHandler (ex_app [])) (ID x) = None"
    by (simp add: NewStateHandler_def)
  have n1: "BaseState_Next st_main' = Some (toState st_quiz)"
    by (simp add: BaseState_Next_def st_main'_def set_Next_def)
  have n2: "BaseState_Next st_quiz = Some Back"
    by (simp add: BaseState_Next_def st_quiz_def)
  have k1: "stack_of ex_json ex_sh (ChatKey ex_ctx) (w_blob (names_blob [''main'', ''quiz'']))
     = Some [st_main', st_quiz]"
    by (simp add: ex_ChatKey ex_stack_of)
  have k2: "json_roundtrip ex_json [BaseState_Name st_main']"
    by (simp add: ex_names ex_roundtrip)
  from RegisterAndChainStates_chain [OF h1 h2 h3] obtain s' ss' where
    r: "RegisterAndChainStates (NewStateHandler (ex_app [])) (map Some [st_main, st_quiz]) =
          Returned (Some (toState (hd ss')), s', map Some ss')"
    and sc: "\<forall>js ctx w m q.
              ss' = [m, q] \<and> BaseState_Next q = Some Back \<and>
              stack_of js s' (ChatKey ctx) w = Some [m, q] \<and>
              json_roundtrip js [BaseState_Name m] \<longrightarrow>
                Transition_Go js s' Back ctx w =
                  BaseState_Render m ctx (snd (setStack js s' (ChatKey ctx) [m] w)) \<and>
                stack_of js s' (ChatKey ctx) (snd (setStack js s' (ChatKey ctx) [m] w)) = Some [m]"
    by blast
  from r ex_RegisterAndChainStates have s': "s' = ex_sh"
    and "map Some ss' = map Some [st_main', st_quiz]"
    by simp_all
  then have ss': "ss' = [st_main', st_quiz]"
    by (simp add: map_eq_Cons_conv)
  from sc s' ss' n2 k1 k2
  have "Transition_Go ex_json ex_sh Back ex_ctx (w_blob (names_blob [''main'', ''quiz''])) =
          BaseState_Render st_main' ex_ctx
            (snd (setStack ex_json ex_sh (ChatKey ex_ctx) [st_main']
                    (w_blob (names_blob [''main'', ''quiz''])))) \<and>
        stack_of ex_json ex_sh (ChatKey ex_ctx)
          (snd (setStack ex_json ex_sh (ChatKey ex_ctx) [st_main']
                  (w_blob (names_blob [''main'', ''quiz''])))) = Some [st_main']"
    by blast
  then have g: "Transition_Go ex_json ex_sh Back ex_ctx (w_blob (names_blob [''main'', ''quiz''])) =
     (None, (w_blob (names_blob [''main'']))\<lparr>ext := 1\<rparr>)"
    and g': "stack_of ex_json ex_sh (ChatKey ex_ctx) (w_blob (names_blob [''main''])) = Some [st_main']"
    by (simp_all add: ex_ChatKey ex_setStack w_blob_update ex_Render) (simp add: w_blob_def)
  from h3 have h3': "states (NewStateHandler (ex_app [])) (ID st_main) = None"
    "states (NewStateHandler (ex_app [])) (ID st_quiz) = None"
    by simp_all
  from h1 h2 h3' ex_RegisterAndChainStates n1 n2 k1 k2 g g' show ?thesis by blast
qed

end
